theory Spec2Isabelle
  imports Complex_Main
begin

section \<open>Regular expressions of the source, as backtracking matchers\<close>

text \<open>
  The two regular expressions of the source are embedded as list-of-successes matchers:
  a matcher maps a state (the capture groups recorded so far and the input still to be
  read) to the list of states in which it can stop, in the order in which a backtracking
  engine tries them (greedy alternatives first). A JavaScript string is modelled as a
  \<open>string\<close>; of the line terminators that \<open>.\<close> refuses, the 8-bit characters
  LF and CR are representable (U+2028 and U+2029 are not).
\<close>

type_synonym captures = "nat \<rightharpoonup> string"
type_synonym mstate = "captures \<times> string"
type_synonym regex = "mstate \<Rightarrow> mstate list"

fun strip_prefix :: "string \<Rightarrow> string \<Rightarrow> string option" where
  "strip_prefix [] s = Some s"
| "strip_prefix (c # cs) [] = None"
| "strip_prefix (c # cs) (d # ds) = (if c = d then strip_prefix cs ds else None)"

fun re_lit :: "string \<Rightarrow> regex" where
  "re_lit l (caps, s) = (case strip_prefix l s of None \<Rightarrow> [] | Some r \<Rightarrow> [(caps, r)])"

fun re_class :: "(char \<Rightarrow> bool) \<Rightarrow> regex" where
  "re_class P (caps, []) = []"
| "re_class P (caps, c # r) = (if P c then [(caps, r)] else [])"

fun re_seq :: "regex \<Rightarrow> regex \<Rightarrow> regex" where
  "re_seq m1 m2 (caps, s) = concat (map m2 (m1 (caps, s)))"

fun re_alt :: "regex \<Rightarrow> regex \<Rightarrow> regex" where
  "re_alt m1 m2 (caps, s) = m1 (caps, s) @ m2 (caps, s)"

fun re_opt :: "regex \<Rightarrow> regex" where
  \<comment> \<open>greedy \<open>?\<close>: first with the optional part, then without it\<close>
  "re_opt m (caps, s) = m (caps, s) @ [(caps, s)]"

fun re_group :: "nat \<Rightarrow> regex \<Rightarrow> regex" where
  \<comment> \<open>capture group \<open>n\<close>: records the text the inner matcher consumed\<close>
  "re_group n m (caps, s) =
     map (\<lambda>(caps', r). (caps'(n \<mapsto> take (length s - length r) s), r)) (m (caps, s))"

fun re_times :: "nat \<Rightarrow> regex \<Rightarrow> regex" where
  "re_times 0 m (caps, s) = [(caps, s)]"
| "re_times (Suc k) m (caps, s) = re_seq m (re_times k m) (caps, s)"

definition line_terminator :: "char \<Rightarrow> bool" where
  "line_terminator c = (c = CHR 0x0A \<or> c = CHR 0x0D)"

fun dot_star :: "string \<Rightarrow> string list" where
  \<comment> \<open>greedy \<open>.*\<close>: the remainders after each possible run, longest run first\<close>
  "dot_star [] = [[]]"
| "dot_star (c # s) = (if line_terminator c then [c # s] else dot_star s @ [c # s])"

fun re_dot_star :: regex where
  "re_dot_star (caps, s) = map (\<lambda>r. (caps, r)) (dot_star s)"

fun re_eos :: regex where
  \<comment> \<open>\<open>$\<close> without the multiline flag: only at the end of the input\<close>
  "re_eos (caps, s) = (if s = [] then [(caps, s)] else [])"

definition match_from_start :: "regex \<Rightarrow> string \<Rightarrow> captures option" where
  \<comment> \<open>a pattern that begins with \<open>^\<close> can only match at index 0\<close>
  "match_from_start re s = (case re (Map.empty, s) of [] \<Rightarrow> None | (caps, r) # _ \<Rightarrow> Some caps)"

fun search :: "regex \<Rightarrow> string \<Rightarrow> captures option" where
  \<comment> \<open>a pattern without \<open>^\<close>: the leftmost index at which it matches\<close>
  "search re [] = (case re (Map.empty, []) of [] \<Rightarrow> None | (caps, r) # _ \<Rightarrow> Some caps)"
| "search re (c # s) =
     (case re (Map.empty, c # s) of [] \<Rightarrow> search re s | (caps, r) # _ \<Rightarrow> Some caps)"

section \<open>src/lib/youtube-audio-extractor.ts: URL grammar\<close>

definition id_char :: "char \<Rightarrow> bool" where
  \<comment> \<open>\<open>[a-zA-Z0-9_-]\<close>\<close>
  "id_char c = (c \<in> set ''abcdefghijklmnopqrstuvwxyzABCDEFGHIJKLMNOPQRSTUVWXYZ0123456789_-'')"

definition amp_or_qmark :: "char \<Rightarrow> bool" where
  \<comment> \<open>\<open>[&?]\<close>\<close>
  "amp_or_qmark c = (c = CHR ''&'' \<or> c = CHR ''?'')"

definition YOUTUBE_URL_REGEX :: regex where
  \<comment> \<open>\<open>^(https?:\/\/)?(www\.)?(youtube\.com\/watch\?v=|youtu\.be\/)([a-zA-Z0-9_-]{11})([&?].*)?$\<close>\<close>
  "YOUTUBE_URL_REGEX =
     re_seq (re_opt (re_group 1
        (re_seq (re_lit ''http'') (re_seq (re_opt (re_lit ''s'')) (re_lit ''://'')))))
    (re_seq (re_opt (re_group 2 (re_lit ''www.'')))
    (re_seq (re_group 3 (re_alt (re_lit ''youtube.com/watch?v='') (re_lit ''youtu.be/'')))
    (re_seq (re_group 4 (re_times 11 (re_class id_char)))
    (re_seq (re_opt (re_group 5 (re_seq (re_class amp_or_qmark) re_dot_star)))
     re_eos))))"

definition extractYouTubeVideoId :: "string \<Rightarrow> string option" where
  "extractYouTubeVideoId url =
     (case match_from_start YOUTUBE_URL_REGEX url of None \<Rightarrow> None | Some m \<Rightarrow> m 4)"

definition isValidYouTubeUrl :: "string \<Rightarrow> bool" where
  "isValidYouTubeUrl url = (match_from_start YOUTUBE_URL_REGEX url \<noteq> None)"


section \<open>src/lib/youtube-audio-extractor.ts: the extractor\<close>

text \<open>
  The extractor touches the file system, spawns a child process and keeps a registry of
  temporary files. The part of the machine it can change is the record \<open>world\<close>, threaded
  through every operation; everything it can only observe (the temp directory, the random
  bytes, how a spawned command behaves, whether \<open>unlink\<close> fails) is the record \<open>env\<close>.
  The field \<open>duration\<close> of the results (elapsed wall-clock time) is left out.
  A child process is described by what \<open>exec\<close> can observe of it: the chunks of output
  in the order and at the times they arrive, when it exits and with which status, and how
  long it takes to exit once it has been signalled. Times are in milliseconds since the
  command was started, and output is assumed to arrive no later than the child exits.
  \<open>spawned\<close> and \<open>cleanup_calls\<close> record which commands were handed to \<open>exec\<close> and with
  which paths \<open>cleanupFile\<close> was entered.
\<close>

datatype audio_format = Mp3 | Wav | Webm | M4a
datatype audio_quality = Lowest | Low | Medium

record ExtractorConfig =
  timeoutMs :: nat
  audioFormat :: audio_format
  audioQuality :: audio_quality

definition new_config :: "nat option \<Rightarrow> audio_format option \<Rightarrow> audio_quality option \<Rightarrow> ExtractorConfig" where
  \<comment> \<open>the constructor: \<open>config.timeoutMs || 300000\<close>, so an absent or zero timeout gives the default\<close>
  "new_config t f q =
     \<lparr> timeoutMs = (case t of None \<Rightarrow> 300000 | Some n \<Rightarrow> if n = 0 then 300000 else n),
       audioFormat = (case f of None \<Rightarrow> Mp3 | Some x \<Rightarrow> x),
       audioQuality = (case q of None \<Rightarrow> Lowest | Some x \<Rightarrow> x) \<rparr>"

definition default_config :: ExtractorConfig where
  \<comment> \<open>\<open>getYouTubeExtractor()\<close> as the route calls it, with no configuration\<close>
  "default_config = new_config None None None"

record ExtractionResult =
  success :: bool
  audioPath :: "string option"
  filename :: "string option"
  error :: "string option"
  videoId :: "string option"

datatype stream = Stdout | Stderr

record child_run =
  chunks :: "(nat \<times> stream \<times> string) list"
                              \<comment> \<open>the output, in arrival order: arrival time, stream, data\<close>
  run_ms :: "nat option"      \<comment> \<open>wall-clock time until the child has exited and its output has
                                  ended (the \<open>close\<close> event); \<open>None\<close>: it never does\<close>
  exit_code :: nat            \<comment> \<open>the exit status (a death by signal counts as non-zero)\<close>
  exec_error :: string        \<comment> \<open>the message of the error \<open>exec\<close> rejects with on a non-zero status\<close>
  term_ms :: "nat option"     \<comment> \<open>how long it takes to exit once signalled; \<open>None\<close>: it ignores the signal\<close>
  creates :: "string set"     \<comment> \<open>the files the child has written when the promise settles\<close>

record env =
  tmpdir :: string
  randomHex :: "nat \<Rightarrow> string"          \<comment> \<open>\<open>randomBytes(8).toString('hex')\<close>, by call number\<close>
  child :: "string \<Rightarrow> child_run"        \<comment> \<open>how a command behaves once spawned\<close>
  unlink_error :: "string \<Rightarrow> string option"  \<comment> \<open>\<open>Some msg\<close>: \<open>unlink\<close> of the path rejects\<close>
  exponent_string :: "nat \<Rightarrow> string"    \<comment> \<open>what JavaScript prints for a number from \<open>1e21\<close> on\<close>

record world =
  files :: "string set"
  tempFilesToCleanup :: "string set"
  running :: "string set"
  spawned :: "string list"
  rng_calls :: nat
  cleanup_calls :: "string list"
  console :: "string list"

definition console_log :: "string \<Rightarrow> world \<Rightarrow> world" where
  "console_log msg w = w\<lparr>console := console w @ [msg]\<rparr>"

fun string_of_nat :: "nat \<Rightarrow> string" where
  "string_of_nat n =
     (if n < 10 then [''0123456789'' ! n]
      else string_of_nat (n div 10) @ [''0123456789'' ! (n mod 10)])"

fun includes_str :: "string \<Rightarrow> string \<Rightarrow> bool" where
  \<comment> \<open>\<open>String.prototype.includes\<close>\<close>
  "includes_str [] sub = (sub = [])"
| "includes_str (c # s) sub = (strip_prefix sub (c # s) \<noteq> None \<or> includes_str s sub)"

fun join_with :: "string \<Rightarrow> string list \<Rightarrow> string" where
  \<comment> \<open>\<open>Array.prototype.join\<close>\<close>
  "join_with sep [] = []"
| "join_with sep [x] = x"
| "join_with sep (x # y # xs) = x @ sep @ join_with sep (y # xs)"

definition format_name :: "audio_format \<Rightarrow> string" where
  "format_name f = (case f of Mp3 \<Rightarrow> ''mp3'' | Wav \<Rightarrow> ''wav'' | Webm \<Rightarrow> ''webm'' | M4a \<Rightarrow> ''m4a'')"

definition formatMap :: "audio_format \<Rightarrow> string" where
  "formatMap f = (case f of
       Mp3 \<Rightarrow> ''bestaudio[ext=mp3]/best''
     | Webm \<Rightarrow> ''bestaudio[ext=webm]/best''
     | M4a \<Rightarrow> ''bestaudio[ext=m4a]/best''
     | Wav \<Rightarrow> ''bestaudio[ext=wav]/best'')"

definition escape_quotes :: "string \<Rightarrow> string" where
  \<comment> \<open>\<open>outputPath.replace(/'/g, "'\\''")\<close>: every \<open>'\<close> becomes the four characters \<open>'\''\<close>\<close>
  "escape_quotes p =
     concat (map (\<lambda>c. if c = CHR 0x27 then [CHR 0x27, CHR 0x5C, CHR 0x27, CHR 0x27] else [c]) p)"

definition buildYtdlpCommand :: "ExtractorConfig \<Rightarrow> string \<Rightarrow> string \<Rightarrow> string" where
  "buildYtdlpCommand cfg youtubeUrl outputPath =
     (let format = formatMap (audioFormat cfg);
          output = escape_quotes outputPath
      in join_with '' ''
          [''yt-dlp'',
           ''-x'',
           ''--audio-format'', format_name (audioFormat cfg),
           ''--audio-quality'', (if audioQuality cfg = Lowest then ''128'' else ''192''),
           ''-f'', format,
           ''--quiet'',
           ''--no-warnings'',
           ''-o'', [CHR 0x27] @ output @ [CHR 0x27],
           [CHR 0x27] @ youtubeUrl @ [CHR 0x27]])"

definition number_string :: "env \<Rightarrow> nat \<Rightarrow> string" where
  \<comment> \<open>a number in a template string: decimal digits below \<open>1e21\<close>, exponent notation from there on\<close>
  "number_string e n = (if n < 1000000000000000000000 then string_of_nat n else exponent_string e n)"

definition timer_delay :: "nat \<Rightarrow> nat" where
  \<comment> \<open>\<open>setTimeout\<close> replaces a delay below 1 or above \<open>2^31 - 1\<close> by 1\<close>
  "timer_delay ms = (if 1 \<le> ms \<and> ms \<le> 2147483647 then ms else 1)"

definition maxBuffer :: nat where
  \<comment> \<open>\<open>{ maxBuffer: 10 * 1024 * 1024 }\<close>\<close>
  "maxBuffer = 10 * 1024 * 1024"

definition byteLength :: "string \<Rightarrow> nat" where
  \<comment> \<open>\<open>Buffer.byteLength(chunk, 'utf8')\<close>: a character from 0x80 on takes two bytes\<close>
  "byteLength s = sum_list (map (\<lambda>c. if of_char c < (128::nat) then 1 else 2) s)"

definition stream_name :: "stream \<Rightarrow> string" where
  "stream_name s = (case s of Stdout \<Rightarrow> ''stdout'' | Stderr \<Rightarrow> ''stderr'')"

fun collect_output ::
  "nat \<Rightarrow> nat \<Rightarrow> string \<Rightarrow> string \<Rightarrow> (nat \<times> stream \<times> string) list \<Rightarrow> (nat \<times> stream) + (string \<times> string)" where
  \<comment> \<open>the \<open>data\<close> handlers of \<open>exec\<close>: each stream is accumulated and its bytes are counted;
      the chunk with which a count passes \<open>maxBuffer\<close> makes \<open>exec\<close> give up on the child\<close>
  "collect_output outLen errLen out err [] = Inr (out, err)"
| "collect_output outLen errLen out err ((t, Stdout, d) # cs) =
     (if outLen + byteLength d > maxBuffer then Inl (t, Stdout)
      else collect_output (outLen + byteLength d) errLen (out @ d) err cs)"
| "collect_output outLen errLen out err ((t, Stderr, d) # cs) =
     (if errLen + byteLength d > maxBuffer then Inl (t, Stderr)
      else collect_output outLen (errLen + byteLength d) out (err @ d) cs)"

definition received :: "child_run \<Rightarrow> nat \<Rightarrow> (nat \<times> stream) + (string \<times> string)" where
  \<comment> \<open>what \<open>exec\<close> makes of the output that arrives before a deadline: the two streams, or
      the time and the stream of the overflow\<close>
  "received c deadline = collect_output 0 0 [] [] (takeWhile (\<lambda>(t, s, d). t < deadline) (chunks c))"

definition exits_before :: "child_run \<Rightarrow> nat \<Rightarrow> bool" where
  "exits_before c deadline = (case run_ms c of None \<Rightarrow> False | Some t \<Rightarrow> t < deadline)"

definition closes_before :: "child_run \<Rightarrow> nat \<Rightarrow> nat \<Rightarrow> bool" where
  \<comment> \<open>a child that \<open>exec\<close> signals at time \<open>t\<close> is gone before the deadline: it dies of
      the signal or exits by itself, whichever comes first\<close>
  "closes_before c t deadline =
     ((case term_ms c of None \<Rightarrow> False | Some d \<Rightarrow> t + d < deadline) \<or> exits_before c deadline)"

definition settle :: "env \<Rightarrow> string \<Rightarrow> nat \<Rightarrow> (string + string \<times> string) \<times> bool" where
  \<comment> \<open>How the promise of \<open>executeWithTimeout\<close> is settled, and whether it was the timer
      that settled it. The callback of \<open>exec\<close> resolves on exit status 0 and rejects on
      any other status, or once a stream has passed \<open>maxBuffer\<close> and the child, which
      \<open>exec\<close> then signals, is gone. The timer callback only rejects; nothing in it, or
      anywhere else in the extractor, signals the child. Whichever callback runs first wins.\<close>
  "settle e command timeout =
     (let c = child e command;
          deadline = timer_delay timeout;
          timed_out = (Inl (''Command execution timed out after '' @ number_string e timeout @ ''ms''), True)
      in case received c deadline of
           Inl (t, s) \<Rightarrow>
             if closes_before c t deadline
             then (Inl (stream_name s @ '' maxBuffer length exceeded''), False)
             else timed_out
         | Inr (out, err) \<Rightarrow>
             if exits_before c deadline
             then (if exit_code c = 0 then Inr (out, err) else Inl (exec_error c), False)
             else timed_out)"

definition executeWithTimeout :: "env \<Rightarrow> string \<Rightarrow> nat \<Rightarrow> world \<Rightarrow> (string + string \<times> string) \<times> world" where
  "executeWithTimeout e command timeout w =
     (case settle e command timeout of
        (result, timer_won) \<Rightarrow>
          (result,
           w\<lparr>spawned := spawned w @ [command],
              files := files w \<union> creates (child e command),
              running := (if timer_won then insert command (running w) else running w)\<rparr>))"

fun split_on :: "char \<Rightarrow> string \<Rightarrow> string list" where
  \<comment> \<open>the segments between separators, empty ones included\<close>
  "split_on sep [] = [[]]"
| "split_on sep (c # s) =
     (if c = sep then [] # split_on sep s
      else (case split_on sep s of [] \<Rightarrow> [[c]] | seg # segs \<Rightarrow> (c # seg) # segs))"

fun normalize_segments :: "bool \<Rightarrow> string list \<Rightarrow> string list \<Rightarrow> string list" where
  \<comment> \<open>\<open>normalizeString\<close> of \<open>path\<close>: empty and \<open>.\<close> segments vanish, \<open>..\<close> removes the
      segment before it, or stays when there is none to remove and the path is relative\<close>
  "normalize_segments allowAboveRoot res [] = res"
| "normalize_segments allowAboveRoot res (seg # segs) =
     normalize_segments allowAboveRoot
       (if seg = [] \<or> seg = ''.'' then res
        else if seg = ''..'' then
          (if res \<noteq> [] \<and> last res \<noteq> ''..'' then butlast res
           else if allowAboveRoot then res @ [''..''] else res)
        else res @ [seg])
       segs"

definition normalize_path :: "string \<Rightarrow> string" where
  \<comment> \<open>\<open>path.posix.normalize\<close>\<close>
  "normalize_path p =
     (if p = [] then ''.''
      else
        (let isAbsolute = (hd p = CHR ''/'');
             trailingSeparator = (last p = CHR ''/'');
             body = join_with ''/'' (normalize_segments (\<not> isAbsolute) [] (split_on CHR ''/'' p))
         in if body = [] then (if isAbsolute then ''/'' else if trailingSeparator then ''./'' else ''.'')
            else (if isAbsolute then ''/'' else []) @ body @ (if trailingSeparator then ''/'' else [])))"

definition join_path :: "string \<Rightarrow> string \<Rightarrow> string" where
  \<comment> \<open>\<open>path.posix.join\<close> of two arguments: empty arguments are skipped, the rest is
      joined with \<open>/\<close> and normalised\<close>
  "join_path dir name =
     (let joined = (if dir = [] then name else if name = [] then dir else dir @ ''/'' @ name)
      in if joined = [] then ''.'' else normalize_path joined)"

definition temp_filename :: "ExtractorConfig \<Rightarrow> string \<Rightarrow> string \<Rightarrow> string" where
  \<comment> \<open>\<open>`viajera_${videoId}_${randomId}.${this.config.audioFormat}`\<close>\<close>
  "temp_filename cfg vid randomId =
     ''viajera_'' @ vid @ ''_'' @ randomId @ ''.'' @ format_name (audioFormat cfg)"

definition failure :: "string \<Rightarrow> string option \<Rightarrow> ExtractionResult" where
  "failure msg vid = \<lparr> success = False, audioPath = None, filename = None, error = Some msg, videoId = vid \<rparr>"

definition extractAudio :: "ExtractorConfig \<Rightarrow> env \<Rightarrow> string \<Rightarrow> world \<Rightarrow> ExtractionResult \<times> world" where
  "extractAudio cfg e youtubeUrl w =
     (if \<not> isValidYouTubeUrl youtubeUrl then (failure ''Invalid YouTube URL format'' None, w)
      else case extractYouTubeVideoId youtubeUrl of
        None \<Rightarrow> (failure ''Could not extract video ID from URL'' None, w)
      | Some vid \<Rightarrow>
          (let tempDir = tmpdir e;
               randomId = randomHex e (rng_calls w);
               w1 = w\<lparr>rng_calls := Suc (rng_calls w)\<rparr>;
               fname = temp_filename cfg vid randomId;
               path = join_path tempDir fname;
               ytdlpCommand = buildYtdlpCommand cfg youtubeUrl path;
               w2 = console_log (''[YouTube Extract] Command: '' @ ytdlpCommand)
                      (console_log (''[YouTube Extract] Starting extraction for: '' @ vid) w1)
           in case executeWithTimeout e ytdlpCommand (timeoutMs cfg) w2 of
                (Inl message, w3) \<Rightarrow>
                  (failure (if message = [] then ''Failed to extract audio from YouTube'' else message) None,
                   console_log (''[YouTube Extract] Error: '' @ message) w3)
              | (Inr (out, err), w3) \<Rightarrow>
                  (let w4 = (if err \<noteq> [] \<and> \<not> includes_str err ''WARNING''
                             then console_log (''[YouTube Extract] Warnings during extraction: '' @ err) w3
                             else w3)
                   in if path \<notin> files w4
                      then (failure ''Audio extraction failed: Output file not created'' (Some vid), w4)
                      else (\<lparr> success = True, audioPath = Some path, filename = Some fname,
                              error = None, videoId = Some vid \<rparr>,
                            console_log (''[YouTube Extract] Successfully extracted to: '' @ path)
                              (w4\<lparr>tempFilesToCleanup := insert path (tempFilesToCleanup w4)\<rparr>)))))"

definition cleanupFile :: "env \<Rightarrow> string \<Rightarrow> world \<Rightarrow> bool \<times> world" where
  "cleanupFile e path w0 =
     (let w = w0\<lparr>cleanup_calls := cleanup_calls w0 @ [path]\<rparr>
      in if path \<in> files w
         then (case unlink_error e path of
                 Some msg \<Rightarrow>
                   (False, console_log (''[YouTube Extract] Cleanup error for '' @ path @ '': '' @ msg) w)
               | None \<Rightarrow>
                   (True, console_log (''[YouTube Extract] Cleaned up: '' @ path)
                      (w\<lparr>files := files w - {path},
                         tempFilesToCleanup := tempFilesToCleanup w - {path}\<rparr>)))
         else (False, w))"


section \<open>src/app/api/process-youtube-decimas/route.ts: the orchestrator\<close>

text \<open>
  The handler's collaborators are inputs of the model: what the rate limiter decides for
  the client, what the cache store answers to a lookup and to a write, and what the
  transcription endpoint answers (record \<open>route_env\<close>). The client identity passed to the
  limiter, the elapsed time in the responses and the constant \<open>nextStep\<close> text are left
  out, and \<open>resetAt\<close> is kept as the number the limiter returned (when that number is
  beyond the range of a date, \<open>toISOString\<close> throws). \<open>POST\<close> is a module-level
  function that refers to \<open>this\<close>, so the binding of \<open>this\<close> is a parameter as well.
\<close>

definition videoId_regex :: regex where
  \<comment> \<open>\<open>/[?&]v=([a-zA-Z0-9_-]{11})|youtu\.be\/([a-zA-Z0-9_-]{11})/\<close>\<close>
  "videoId_regex =
     re_alt (re_seq (re_class amp_or_qmark) (re_seq (re_lit ''v='')
               (re_group 1 (re_times 11 (re_class id_char)))))
            (re_seq (re_lit ''youtu.be/'') (re_group 2 (re_times 11 (re_class id_char))))"

definition inline_videoId :: "string \<Rightarrow> string option" where
  \<comment> \<open>\<open>videoIdMatch ? videoIdMatch[1] || videoIdMatch[2] : null\<close>\<close>
  "inline_videoId url =
     (case search videoId_regex url of
        None \<Rightarrow> None
      | Some m \<Rightarrow> (case m 1 of None \<Rightarrow> m 2 | Some g \<Rightarrow> if g = [] then m 2 else Some g))"

definition getCacheKey :: "string \<Rightarrow> string" where
  "getCacheKey vid = ''viajera:transcript:'' @ vid"

record TranscriptionResult =
  t_success :: bool
  t_text :: "string option"
  t_error :: "string option"
  t_code :: "string option"

datatype json_body =
    Json_invalid string        \<comment> \<open>\<open>request.json()\<close> rejects with this message\<close>
  | Json_null                  \<comment> \<open>the body is \<open>null\<close>: destructuring it throws\<close>
  | Json_value "string option" \<comment> \<open>any other body; its \<open>url\<close> property when that is a string\<close>

datatype js_this =
    This_undefined             \<comment> \<open>what a module-level function called as a plain function sees\<close>
  | This_without_method        \<comment> \<open>an object with no \<open>callTranscriptionApi\<close> property\<close>
  | This_with_method "string \<Rightarrow> string + TranscriptionResult"
                               \<comment> \<open>a receiver that has such a method; \<open>Inl msg\<close>: it throws\<close>

record rate_limit_result =
  rl_success :: bool
  rl_remaining :: nat
  rl_reset :: nat

record route_env =
  ratelimit_limit :: "string + rate_limit_result"   \<comment> \<open>\<open>Inl msg\<close>: the limiter's store throws\<close>
  redis_get :: "string \<Rightarrow> string + string option"   \<comment> \<open>\<open>Inl msg\<close>: the lookup throws\<close>
  redis_setex :: "string \<Rightarrow> string \<Rightarrow> string option" \<comment> \<open>\<open>Some msg\<close>: the write throws\<close>
  transcribe_endpoint :: "string \<Rightarrow> string + TranscriptionResult"
    \<comment> \<open>reading the audio file, posting it to \<open>/api/transcribe-audio\<close> and decoding the
        reply; \<open>Inl msg\<close> when any of these throws\<close>

datatype response =
    Rate_limited nat nat                     \<comment> \<open>status 429: remaining, reset\<close>
  | Failure nat string "string option"       \<comment> \<open>status, error, code\<close>
  | Success string string bool string        \<comment> \<open>status 200: videoId, transcript, fromCache, cacheKey\<close>

definition callTranscriptionApi :: "route_env \<Rightarrow> string \<Rightarrow> TranscriptionResult" where
  \<comment> \<open>the module-level function: its own \<open>try/catch\<close> turns every throw into a result\<close>
  "callTranscriptionApi r path =
     (case transcribe_endpoint r path of
        Inr result \<Rightarrow> result
      | Inl message \<Rightarrow>
          \<lparr> t_success = False, t_text = None,
            t_error = Some (if message = [] then ''Failed to call transcription API'' else message),
            t_code = Some ''TRANSCRIPTION_FAILED'' \<rparr>)"

definition this_callTranscriptionApi :: "js_this \<Rightarrow> string \<Rightarrow> string + TranscriptionResult" where
  \<comment> \<open>\<open>this.callTranscriptionApi(audioPath)\<close>: the property is looked up on \<open>this\<close>\<close>
  "this_callTranscriptionApi this path =
     (case this of
        This_undefined \<Rightarrow>
          Inl (''Cannot read properties of undefined (reading '' @ [CHR 0x27] @
               ''callTranscriptionApi'' @ [CHR 0x27] @ '')'')
      | This_without_method \<Rightarrow> Inl ''this.callTranscriptionApi is not a function''
      | This_with_method f \<Rightarrow> f path)"

definition unexpected :: "string \<Rightarrow> world \<Rightarrow> response \<times> world" where
  \<comment> \<open>the outer \<open>catch\<close>: \<open>error.message || 'An unexpected error occurred'\<close>, status 500\<close>
  "unexpected message w =
     (Failure 500 (if message = [] then ''An unexpected error occurred'' else message) None,
      console_log (''[Process YouTube] Unexpected error: '' @ message) w)"

definition or_else :: "string option \<Rightarrow> string \<Rightarrow> string" where
  \<comment> \<open>\<open>x || d\<close> on a string that may be undefined: the empty string is falsy too\<close>
  "or_else x d = (case x of None \<Rightarrow> d | Some v \<Rightarrow> if v = [] then d else v)"

definition extract_and_transcribe ::
  "js_this \<Rightarrow> env \<Rightarrow> route_env \<Rightarrow> string \<Rightarrow> string \<Rightarrow> string \<Rightarrow> world \<Rightarrow> response \<times> world" where
  \<comment> \<open>the body of \<open>if (!transcript)\<close> and the final response, lines 133 to 211 of \<open>POST\<close>\<close>
  "extract_and_transcribe this e r url vid cacheKey w =
     (case extractAudio default_config e url
             (console_log (''[Process YouTube] Cache miss, extracting audio for: '' @ vid) w) of
        (extractionResult, w1) \<Rightarrow>
          if \<not> success extractionResult
          then (Failure 500 (or_else (error extractionResult) ''Failed to extract audio from YouTube'') None,
                console_log ''[Process YouTube] Audio extraction failed'' w1)
          else if audioPath extractionResult = None \<or> audioPath extractionResult = Some []
          then (Failure 500 ''Audio extraction returned no file path'' None, w1)
          else
            (let path = the (audioPath extractionResult);
                 w2 = console_log ''[Process YouTube] Audio extracted, calling transcription API...'' w1
             in case this_callTranscriptionApi this path of
                  Inl message \<Rightarrow> unexpected message w2
                | Inr transcriptionResult \<Rightarrow>
                    (case cleanupFile e path w2 of
                       (_, w3) \<Rightarrow>
                         if \<not> t_success transcriptionResult
                         then (Failure 500 (or_else (t_error transcriptionResult) ''Failed to transcribe audio'')
                                 (t_code transcriptionResult),
                               console_log ''[Process YouTube] Transcription failed'' w3)
                         else
                           (let transcript = or_else (t_text transcriptionResult) [];
                                w4 = (case redis_setex r cacheKey transcript of
                                        None \<Rightarrow> console_log (''[Process YouTube] Transcription cached for 24h: '' @ vid) w3
                                      | Some message \<Rightarrow>
                                          console_log (''[Process YouTube] Failed to cache transcription: '' @ message) w3)
                            in (Success vid transcript False cacheKey,
                                console_log ''[Process YouTube] Pipeline completed'' w4)))))"

definition POST :: "js_this \<Rightarrow> env \<Rightarrow> route_env \<Rightarrow> json_body \<Rightarrow> world \<Rightarrow> response \<times> world" where
  "POST this e r body w =
     (case ratelimit_limit r of
        Inl message \<Rightarrow> unexpected message w
      | Inr rl \<Rightarrow>
          if \<not> rl_success rl
          then (if rl_reset rl \<le> 8640000000000000
                then (Rate_limited (rl_remaining rl) (rl_reset rl), w)
                else unexpected ''Invalid time value'' w)
          else case body of
            Json_invalid message \<Rightarrow> unexpected message w
          | Json_null \<Rightarrow>
              unexpected (''Cannot destructure property '' @ [CHR 0x27] @ ''url'' @ [CHR 0x27] @
                          '' of '' @ [CHR 0x27] @ ''body'' @ [CHR 0x27] @ '' as it is null.'') w
          | Json_value u \<Rightarrow>
              if u = None \<or> u = Some []
              then (Failure 400 ''YouTube URL is required. Expected: { url: \"https://www.youtube.com/watch?v=...\" }'' None, w)
              else
                (let url = the u in
                 if \<not> isValidYouTubeUrl url
                 then (Failure 400 ''Invalid YouTube URL format. Supported formats: https://www.youtube.com/watch?v=VIDEO_ID or https://youtu.be/VIDEO_ID'' None, w)
                 else
                   (let w1 = console_log (''[Process YouTube] Starting pipeline for URL: '' @ url) w;
                        videoId = inline_videoId url
                    in if videoId = None \<or> videoId = Some []
                       then (Failure 400 ''Could not extract video ID from URL'' None, w1)
                       else
                         (let vid = the videoId; cacheKey = getCacheKey vid
                          in case redis_get r cacheKey of
                               Inl message \<Rightarrow>
                                 extract_and_transcribe this e r url vid cacheKey
                                   (console_log (''[Process YouTube] Cache lookup failed, proceeding with extraction: '' @ message) w1)
                             | Inr cached \<Rightarrow>
                                 if cached = None \<or> cached = Some []
                                 then extract_and_transcribe this e r url vid cacheKey w1
                                 else (Success vid (the cached) True cacheKey,
                                       console_log ''[Process YouTube] Pipeline completed''
                                         (console_log (''[Process YouTube] Cache hit for video: '' @ vid) w1))))))"


section \<open>src/app/api/export/pdf/route.ts, second document: the Groq client\<close>

text \<open>
  After the PDF route, the file holds the module that the transcription route imports as
  \<open>@/lib/groq-client\<close>. Its retry configuration is fixed by the constructor. What the
  external service answers to each call, and what \<open>Math.random\<close> returns, are inputs of
  the model; a thrown value is \<open>null\<close> or \<open>undefined\<close>, or is described by the properties
  that \<open>classifyError\<close> inspects.
  Arithmetic on JavaScript numbers is exact arithmetic on reals here. Console output and
  the field \<open>duration\<close> are left out.
\<close>

datatype GroqErrorCode =
    GROQ_AUTH_ERROR | RATE_LIMIT | FILE_TOO_LARGE | UNSUPPORTED_FORMAT | SERVER_ERROR
  | TIMEOUT | UNKNOWN_ERROR

definition code_name :: "GroqErrorCode \<Rightarrow> string" where
  "code_name c = (case c of
       GROQ_AUTH_ERROR \<Rightarrow> ''GROQ_AUTH_ERROR'' | RATE_LIMIT \<Rightarrow> ''RATE_LIMIT''
     | FILE_TOO_LARGE \<Rightarrow> ''FILE_TOO_LARGE'' | UNSUPPORTED_FORMAT \<Rightarrow> ''UNSUPPORTED_FORMAT''
     | SERVER_ERROR \<Rightarrow> ''SERVER_ERROR'' | TIMEOUT \<Rightarrow> ''TIMEOUT'' | UNKNOWN_ERROR \<Rightarrow> ''UNKNOWN_ERROR'')"

record TranscriptionResponse =
  g_success :: bool
  g_text :: "string option"
  g_error :: "string option"
  g_code :: "GroqErrorCode option"

record RetryConfig =
  maxAttempts :: nat
  baseDelayMs :: nat
  maxDelayMs :: nat

definition retryConfig :: RetryConfig where
  \<comment> \<open>\<open>this.retryConfig\<close>, as the constructor sets it\<close>
  "retryConfig = \<lparr> maxAttempts = 3, baseDelayMs = 1000, maxDelayMs = 10000 \<rparr>"

record thrown_error =
  is_APIError :: bool            \<comment> \<open>\<open>error instanceof Groq.APIError\<close>\<close>
  err_status :: "nat option"     \<comment> \<open>\<open>error.status\<close>\<close>
  err_message :: "string option" \<comment> \<open>\<open>error.message\<close>\<close>
  err_name :: "string option"    \<comment> \<open>\<open>error.name\<close>\<close>
  err_code :: "string option"    \<comment> \<open>\<open>error.code\<close>\<close>

datatype thrown =
    Thrown_nullish               \<comment> \<open>\<open>null\<close> or \<open>undefined\<close>: reading \<open>error.name\<close> throws\<close>
  | Thrown thrown_error

definition getBackoffDelay :: "nat \<Rightarrow> real \<Rightarrow> real \<Rightarrow> real" where
  \<comment> \<open>the two further arguments are the results of its two calls of \<open>Math.random\<close>, in order\<close>
  "getBackoffDelay attempt random1 random2 =
     (let delay = real (min (baseDelayMs retryConfig * 2 ^ attempt) (maxDelayMs retryConfig));
          jitter = delay * 0.2 * random1
      in delay + (if random2 > 0.5 then jitter else - jitter))"

definition classifyError :: "thrown_error \<Rightarrow> GroqErrorCode" where
  "classifyError err =
     (if is_APIError err \<and> (err_status err = Some 401 \<or> err_status err = Some 403)
      then GROQ_AUTH_ERROR
      else if is_APIError err \<and> err_status err = Some 429 then RATE_LIMIT
      else if is_APIError err \<and> err_status err = Some 413 then FILE_TOO_LARGE
      else if is_APIError err \<and> (case err_status err of None \<Rightarrow> False | Some st \<Rightarrow> 500 \<le> st)
      then SERVER_ERROR
      else if is_APIError err \<and>
              (case err_message err of None \<Rightarrow> False
               | Some m \<Rightarrow> includes_str m ''unsupported'' \<or> includes_str m ''format'')
      then UNSUPPORTED_FORMAT
      else if err_name err = Some ''TimeoutError'' \<or> err_code err = Some ''ECONNABORTED''
      then TIMEOUT
      else UNKNOWN_ERROR)"

record transcribe_run =
  reply :: "TranscriptionResponse option"
                                   \<comment> \<open>what \<open>transcribe\<close> returns; \<open>None\<close>: its promise rejects\<close>
  attempts :: nat                  \<comment> \<open>how many calls of the service were made\<close>
  sleeps :: "real list"            \<comment> \<open>the delays passed to \<open>setTimeout\<close>, in order\<close>

definition failed :: "string \<Rightarrow> GroqErrorCode \<Rightarrow> TranscriptionResponse" where
  "failed msg c = \<lparr> g_success = False, g_text = None, g_error = Some msg, g_code = Some c \<rparr>"

primrec transcribe_loop ::
  "(nat \<Rightarrow> thrown + string) \<Rightarrow> (nat \<Rightarrow> real) \<Rightarrow> nat \<Rightarrow> nat \<Rightarrow> transcribe_run" where
  \<comment> \<open>the \<open>for\<close> loop with \<open>k\<close> iterations left, at \<open>attempt\<close>; \<open>api n\<close> is what call
      number \<open>n\<close> of the service does (\<open>Inl\<close>: it throws), and \<open>rnd i\<close> is what
      \<open>getBackoffDelay\<close> gets from its call number \<open>i\<close> of \<open>Math.random\<close>: every retry
      before has drawn two\<close>
  "transcribe_loop api rnd 0 attempt =
     \<lparr> reply = Some (failed ''Transcription failed: Max retry attempts exceeded'' UNKNOWN_ERROR),
       attempts = attempt, sleeps = [] \<rparr>"
| "transcribe_loop api rnd (Suc k) attempt =
     (case api attempt of
        Inr text \<Rightarrow>
          \<lparr> reply = Some \<lparr> g_success = True, g_text = Some text, g_error = None, g_code = None \<rparr>,
            attempts = Suc attempt, sleeps = [] \<rparr>
      | Inl Thrown_nullish \<Rightarrow> \<lparr> reply = None, attempts = Suc attempt, sleeps = [] \<rparr>
      | Inl (Thrown err) \<Rightarrow>
          (let errorCode = classifyError err;
               isLastAttempt = (Suc attempt = maxAttempts retryConfig)
           in if errorCode = GROQ_AUTH_ERROR \<or> errorCode = UNSUPPORTED_FORMAT \<or>
                 errorCode = FILE_TOO_LARGE
              then \<lparr> reply = Some (failed (or_else (err_message err)
                                 (''Transcription failed: '' @ code_name errorCode)) errorCode),
                     attempts = Suc attempt, sleeps = [] \<rparr>
              else if isLastAttempt
              then \<lparr> reply = Some (failed (or_else (err_message err)
                                 (''Transcription failed after '' @
                                  string_of_nat (maxAttempts retryConfig) @ '' attempts'')) errorCode),
                     attempts = Suc attempt, sleeps = [] \<rparr>
              else (let delayMs = getBackoffDelay attempt (rnd (2 * attempt)) (rnd (2 * attempt + 1));
                        rest = transcribe_loop api rnd k (Suc attempt)
                    in rest\<lparr> sleeps := delayMs # sleeps rest \<rparr>)))"

definition transcribe :: "(nat \<Rightarrow> thrown + string) \<Rightarrow> (nat \<Rightarrow> real) \<Rightarrow> transcribe_run" where
  "transcribe api rnd = transcribe_loop api rnd (maxAttempts retryConfig) 0"

section \<open>How the shell reads a command line\<close>

text \<open>
  \<open>exec\<close> hands the command string to \<open>/bin/sh -c\<close>. To say what "one shell word"
  means, the quoting rules of the POSIX shell that the command can exercise are written
  out: blanks separate words, \<open>;\<close>, \<open>&\<close>, \<open>|\<close> and a newline end a command,
  a backslash outside quotes makes the next character literal, and between single quotes
  every character is literal up to the next single quote. The result is \<open>None\<close> when a
  quote is left open.
\<close>

datatype sh_token = Word string | Operator char

definition emit :: "string option \<Rightarrow> sh_token list" where
  "emit cur = (case cur of None \<Rightarrow> [] | Some w \<Rightarrow> [Word w])"

definition word_so_far :: "string option \<Rightarrow> string" where
  "word_so_far cur = (case cur of None \<Rightarrow> [] | Some w \<Rightarrow> w)"

fun sh_unquoted :: "string option \<Rightarrow> string \<Rightarrow> sh_token list option"
  and sh_quoted :: "string \<Rightarrow> string \<Rightarrow> sh_token list option" where
  "sh_unquoted cur [] = Some (emit cur)"
| "sh_unquoted cur (c # s) =
     (if c = CHR 0x27 then sh_quoted (word_so_far cur) s
      else if c = CHR 0x5C then
        (case s of [] \<Rightarrow> Some (emit (Some (word_so_far cur @ [c])))
         | d # s' \<Rightarrow> sh_unquoted (Some (word_so_far cur @ [d])) s')
      else if c = CHR '' '' \<or> c = CHR 0x09 then
        map_option (\<lambda>ts. emit cur @ ts) (sh_unquoted None s)
      else if c = CHR '';'' \<or> c = CHR ''&'' \<or> c = CHR ''|'' \<or> c = CHR 0x0A then
        map_option (\<lambda>ts. emit cur @ Operator c # ts) (sh_unquoted None s)
      else sh_unquoted (Some (word_so_far cur @ [c])) s)"
| "sh_quoted acc [] = None"
| "sh_quoted acc (c # s) =
     (if c = CHR 0x27 then sh_unquoted (Some acc) s else sh_quoted (acc @ [c]) s)"

definition sh_words :: "string \<Rightarrow> sh_token list option" where
  "sh_words command = sh_unquoted None command"


section \<open>Vocabulary of the properties\<close>

definition query_suffix :: "string \<Rightarrow> bool" where
  \<comment> \<open>what may follow the identifier: nothing, or \<open>&\<close> or \<open>?\<close> and then any characters of one line\<close>
  "query_suffix t =
     (case t of [] \<Rightarrow> True | c # r \<Rightarrow> amp_or_qmark c \<and> list_all (\<lambda>c. \<not> line_terminator c) r)"

definition job_path :: "ExtractorConfig \<Rightarrow> env \<Rightarrow> string \<Rightarrow> world \<Rightarrow> string" where
  \<comment> \<open>the temporary path \<open>extractAudio\<close> generates for an identifier in a given world\<close>
  "job_path cfg e vid w = join_path (tmpdir e) (temp_filename cfg vid (randomHex e (rng_calls w)))"

definition job_command :: "ExtractorConfig \<Rightarrow> env \<Rightarrow> string \<Rightarrow> string \<Rightarrow> world \<Rightarrow> string" where
  \<comment> \<open>the command \<open>extractAudio\<close> hands to \<open>exec\<close>\<close>
  "job_command cfg e url vid w = buildYtdlpCommand cfg url (job_path cfg e vid w)"

definition within_buffer :: "child_run \<Rightarrow> nat \<Rightarrow> bool" where
  \<comment> \<open>neither stream passes \<open>maxBuffer\<close> with the output that arrives before the deadline\<close>
  "within_buffer c deadline = (case received c deadline of Inl overflow \<Rightarrow> False | Inr output \<Rightarrow> True)"

definition no_console :: "world \<Rightarrow> world" where
  \<comment> \<open>a world with its console output forgotten\<close>
  "no_console w = w\<lparr>console := []\<rparr>"

subsection \<open>Sample inputs\<close>

definition sample_url :: string where
  "sample_url = ''https://youtu.be/dQw4w9WgXcQ''"

definition sample_path :: string where
  "sample_path = ''/tmp/viajera_dQw4w9WgXcQ_00112233aabbccdd.mp3''"

definition sample_child :: "nat option \<Rightarrow> nat \<Rightarrow> string \<Rightarrow> child_run" where
  \<comment> \<open>a download that writes the output file: running time, exit status and stderr are
      given; it prints its stderr, when it has any, in one chunk after 10 ms\<close>
  "sample_child t code err =
     \<lparr> chunks = (if err = [] then [] else [(10, Stderr, err)]),
       run_ms = t, exit_code = code, exec_error = ''Command failed'', term_ms = Some 0,
       creates = {sample_path} \<rparr>"

definition sample_env :: "child_run \<Rightarrow> string option \<Rightarrow> env" where
  "sample_env c unlink_outcome =
     \<lparr> tmpdir = ''/tmp'', randomHex = (\<lambda>_. ''00112233aabbccdd''),
       child = (\<lambda>_. c), unlink_error = (\<lambda>_. unlink_outcome),
       exponent_string = (\<lambda>_. ''1e+21'') \<rparr>"

definition fresh_world :: world where
  "fresh_world =
     \<lparr> files = {}, tempFilesToCleanup = {}, running = {}, spawned = [], rng_calls = 0,
       cleanup_calls = [], console = [] \<rparr>"

definition world_with_file :: world where
  \<comment> \<open>the world after a successful extraction to \<open>sample_path\<close>\<close>
  "world_with_file = fresh_world\<lparr>files := {sample_path}, tempFilesToCleanup := {sample_path}\<rparr>"

definition sample_route_env :: "(string + string option) \<Rightarrow> string option \<Rightarrow> route_env" where
  \<comment> \<open>an admitting rate limiter and a transcription endpoint that answers with a text;
      the outcomes of the cache lookup and of the cache write are given\<close>
  "sample_route_env lookup write =
     \<lparr> ratelimit_limit = Inr \<lparr> rl_success = True, rl_remaining = 9, rl_reset = 0 \<rparr>,
       redis_get = (\<lambda>_. lookup),
       redis_setex = (\<lambda>_ _. write),
       transcribe_endpoint = (\<lambda>_. Inr \<lparr> t_success = True, t_text = Some ''hola'',
                                        t_error = None, t_code = None \<rparr>) \<rparr>"

definition injection_url :: string where
  \<comment> \<open>an accepted URL whose query suffix holds a single quote\<close>
  "injection_url = ''https://youtu.be/dQw4w9WgXcQ?'' @ [CHR 0x27] @ '';touch /tmp/pwned;'' @ [CHR 0x27]"

definition permanent :: "GroqErrorCode \<Rightarrow> bool" where
  \<comment> \<open>the errors that no waiting changes: authentication, format and size\<close>
  "permanent c = (c = GROQ_AUTH_ERROR \<or> c = UNSUPPORTED_FORMAT \<or> c = FILE_TOO_LARGE)"

definition api_error :: "nat \<Rightarrow> string \<Rightarrow> thrown_error" where
  \<comment> \<open>a \<open>Groq.APIError\<close> with a status and a message\<close>
  "api_error st msg =
     \<lparr> is_APIError = True, err_status = Some st, err_message = Some msg,
       err_name = Some ''Error'', err_code = None \<rparr>"

definition always_throwing :: "thrown_error \<Rightarrow> nat \<Rightarrow> thrown + string" where
  \<comment> \<open>a service that answers every call with the same error\<close>
  "always_throwing err n = Inl (Thrown err)"

definition coin :: "nat \<Rightarrow> real" where
  \<comment> \<open>a random source that always returns one half\<close>
  "coin n = 1 / 2"

section \<open>Facts about the matchers\<close>


declare re_seq.simps [simp del] re_alt.simps [simp del] re_opt.simps [simp del]
  re_group.simps [simp del] re_lit.simps [simp del]

lemma strip_prefix_append [simp]: "strip_prefix l (l @ r) = Some r"
  by (induction l) auto

lemma strip_prefix_Some_iff: "strip_prefix l s = Some r \<longleftrightarrow> s = l @ r"
  by (induction l s rule: strip_prefix.induct) auto

lemma set_re_seq: "set (re_seq m1 m2 st) = (\<Union>y \<in> set (m1 st). set (m2 y))"
  by (cases st) (simp add: re_seq.simps)

lemma set_re_alt: "set (re_alt m1 m2 st) = set (m1 st) \<union> set (m2 st)"
  by (cases st) (simp add: re_alt.simps)

lemma set_re_opt: "set (re_opt m st) = insert st (set (m st))"
  by (cases st) (simp add: re_opt.simps)

lemma set_re_lit: "set (re_lit l (caps, s)) = {(caps, r) | r. s = l @ r}"
proof (cases "strip_prefix l s")
  case None
  then have "\<And>r. s \<noteq> l @ r" by (auto simp: strip_prefix_Some_iff [symmetric])
  with None show ?thesis by (simp add: re_lit.simps)
next
  case (Some r)
  then have "s = l @ r" by (simp add: strip_prefix_Some_iff)
  with Some show ?thesis by (auto simp: re_lit.simps)
qed

lemma set_re_group:
  "set (re_group n m (caps, s)) =
     (\<lambda>(caps', r). (caps'(n \<mapsto> take (length s - length r) s), r)) ` set (m (caps, s))"
  by (simp add: re_group.simps)

lemma re_times_class_append:
  "length tok = k \<Longrightarrow> list_all P tok \<Longrightarrow> re_times k (re_class P) (caps, tok @ r) = [(caps, r)]"
proof (induction k arbitrary: tok)
  case 0
  then show ?case by simp
next
  case (Suc k)
  then obtain c tok' where tok: "tok = c # tok'" by (cases tok) auto
  with Suc show ?case by (simp add: re_seq.simps)
qed

lemma set_re_times_class:
  "x \<in> set (re_times k (re_class P) (caps, s)) \<Longrightarrow>
     \<exists>tok r. s = tok @ r \<and> length tok = k \<and> list_all P tok \<and> x = (caps, r)"
proof (induction k arbitrary: s)
  case 0
  then show ?case by simp
next
  case (Suc k)
  from Suc.prems obtain c s' where s: "s = c # s'" and c: "P c"
    and x: "x \<in> set (re_times k (re_class P) (caps, s'))"
    by (cases s) (auto simp: re_seq.simps split: if_splits)
  from Suc.IH [OF x] obtain tok r where "s' = tok @ r" "length tok = k" "list_all P tok" "x = (caps, r)"
    by blast
  with s c have "s = (c # tok) @ r \<and> length (c # tok) = Suc k \<and> list_all P (c # tok) \<and> x = (caps, r)"
    by simp
  then show ?case by blast
qed

lemma dot_star_eos:
  "concat (map re_eos (map (\<lambda>r. (f r, r)) (dot_star t))) =
     (if list_all (\<lambda>c. \<not> line_terminator c) t then [(f [], [])] else [])"
  by (induction t) auto

lemma suffix_unfold:
  "re_seq (re_opt (re_group 5 (re_seq (re_class amp_or_qmark) re_dot_star))) re_eos (caps, t) =
    (case t of [] \<Rightarrow> [(caps, [])]
     | c # t' \<Rightarrow> if amp_or_qmark c \<and> list_all (\<lambda>c. \<not> line_terminator c) t'
         then [(caps(5 \<mapsto> t), [])] else [])"
proof (cases t)
  case Nil
  then show ?thesis by (simp add: re_seq.simps re_opt.simps re_group.simps)
next
  case (Cons c t')
  have "re_seq (re_opt (re_group 5 (re_seq (re_class amp_or_qmark) re_dot_star))) re_eos (caps, c # t')
      = (if amp_or_qmark c then concat (map re_eos (map (\<lambda>r. (caps(5 \<mapsto> take (Suc (length t') - length r) (c # t')), r)) (dot_star t'))) else [])"
    by (simp add: re_seq.simps re_opt.simps re_group.simps comp_def)
  then show ?thesis unfolding Cons dot_star_eos by simp
qed


lemma id_group_append:
  "length tok = 11 \<Longrightarrow> list_all id_char tok \<Longrightarrow>
     re_group n (re_times 11 (re_class id_char)) (caps, tok @ t) = [(caps(n \<mapsto> tok), t)]"
  by (simp add: re_group.simps re_times_class_append)

lemma id_suffix_match:
  assumes "length tok = 11" "list_all id_char tok" "query_suffix t"
  shows "\<exists>caps'. re_seq (re_group 4 (re_times 11 (re_class id_char)))
            (re_seq (re_opt (re_group 5 (re_seq (re_class amp_or_qmark) re_dot_star))) re_eos) (caps, tok @ t)
          = [(caps', [])] \<and> caps' 4 = Some tok"
proof -
  have "re_seq (re_group 4 (re_times 11 (re_class id_char)))
            (re_seq (re_opt (re_group 5 (re_seq (re_class amp_or_qmark) re_dot_star))) re_eos) (caps, tok @ t)
      = re_seq (re_opt (re_group 5 (re_seq (re_class amp_or_qmark) re_dot_star))) re_eos (caps(4 \<mapsto> tok), t)"
    by (simp add: re_seq.simps [of "re_group 4 _"] id_group_append [OF assms(1,2)])
  with assms(3) show ?thesis
    by (cases t) (simp_all add: suffix_unfold query_suffix_def)
qed

lemma yt_prefix_step:
  assumes "scheme \<in> set ['''', ''http://'', ''https://'']" "www \<in> set ['''', ''www.'']"
    "host \<in> set [''youtube.com/watch?v='', ''youtu.be/'']"
  shows "\<exists>caps. YOUTUBE_URL_REGEX (Map.empty, scheme @ www @ host @ rest) =
      re_seq (re_group 4 (re_times 11 (re_class id_char)))
        (re_seq (re_opt (re_group 5 (re_seq (re_class amp_or_qmark) re_dot_star))) re_eos) (caps, rest)"
proof -
  define K where "K = re_seq (re_group 4 (re_times 11 (re_class id_char)))
        (re_seq (re_opt (re_group 5 (re_seq (re_class amp_or_qmark) re_dot_star))) re_eos)"
  have YT: "YOUTUBE_URL_REGEX =
     re_seq (re_opt (re_group 1
        (re_seq (re_lit ''http'') (re_seq (re_opt (re_lit ''s'')) (re_lit ''://'')))))
    (re_seq (re_opt (re_group 2 (re_lit ''www.'')))
    (re_seq (re_group 3 (re_alt (re_lit ''youtube.com/watch?v='') (re_lit ''youtu.be/''))) K))"
    by (simp add: YOUTUBE_URL_REGEX_def K_def)
  have "\<exists>caps. YOUTUBE_URL_REGEX (Map.empty, scheme @ www @ host @ rest) = K (caps, rest)"
    using assms unfolding YT
    by (auto simp: re_seq.simps re_opt.simps re_group.simps re_alt.simps re_lit.simps)
  then show ?thesis by (simp add: K_def)
qed

lemma yt_accepts_form:
  assumes "scheme \<in> set ['''', ''http://'', ''https://'']" "www \<in> set ['''', ''www.'']"
    "host \<in> set [''youtube.com/watch?v='', ''youtu.be/'']"
    "length tok = 11" "list_all id_char tok" "query_suffix t"
  shows "\<exists>m. match_from_start YOUTUBE_URL_REGEX (scheme @ www @ host @ tok @ t) = Some m \<and> m 4 = Some tok"
proof -
  from yt_prefix_step [OF assms(1-3)] obtain caps where
    "YOUTUBE_URL_REGEX (Map.empty, scheme @ www @ host @ tok @ t) =
      re_seq (re_group 4 (re_times 11 (re_class id_char)))
        (re_seq (re_opt (re_group 5 (re_seq (re_class amp_or_qmark) re_dot_star))) re_eos) (caps, tok @ t)"
    by blast
  moreover from id_suffix_match [OF assms(4-6)] obtain caps' where
    "re_seq (re_group 4 (re_times 11 (re_class id_char)))
        (re_seq (re_opt (re_group 5 (re_seq (re_class amp_or_qmark) re_dot_star))) re_eos) (caps, tok @ t)
      = [(caps', [])]" "caps' 4 = Some tok"
    by blast
  ultimately show ?thesis by (simp add: match_from_start_def)
qed

lemma inline_accepts_form:
  assumes "scheme \<in> set ['''', ''http://'', ''https://'']" "www \<in> set ['''', ''www.'']"
    "host \<in> set [''youtube.com/watch?v='', ''youtu.be/'']"
    "length tok = 11" "list_all id_char tok"
  shows "inline_videoId (scheme @ www @ host @ tok @ t) = Some tok"
proof -
  have tok: "tok \<noteq> []" using assms(4) by auto
  show ?thesis using assms(1-3) tok
    by (auto simp: inline_videoId_def videoId_regex_def re_seq.simps re_alt.simps re_lit.simps
        amp_or_qmark_def id_group_append [OF assms(4,5)])
qed





lemma re_lit_mem: "(c1, s1) \<in> set (re_lit l (caps, s)) \<longleftrightarrow> c1 = caps \<and> s = l @ s1"
  by (auto simp: set_re_lit)

lemma www_inv:
  assumes "(c1, s1) \<in> set (re_opt (re_group 2 (re_lit ''www.'')) (caps, s))"
  shows "\<exists>www. www \<in> set ['''', ''www.''] \<and> s = www @ s1"
proof -
  from assms have "s = s1 \<or> (\<exists>c. (c, s1) \<in> set (re_lit ''www.'' (caps, s)))"
    unfolding set_re_opt set_re_group by auto
  then have "s = [] @ s1 \<or> s = ''www.'' @ s1"
    unfolding re_lit_mem by auto
  then show ?thesis
    by (metis list.set_intros(1,2))
qed

lemma host_inv:
  assumes "(c1, s1) \<in> set (re_group 3 (re_alt (re_lit ''youtube.com/watch?v='') (re_lit ''youtu.be/'')) (caps, s))"
  shows "\<exists>host. host \<in> set [''youtube.com/watch?v='', ''youtu.be/''] \<and> s = host @ s1"
proof -
  from assms have "(\<exists>c. (c, s1) \<in> set (re_lit ''youtube.com/watch?v='' (caps, s))) \<or>
      (\<exists>c. (c, s1) \<in> set (re_lit ''youtu.be/'' (caps, s)))"
    unfolding set_re_alt set_re_group by auto
  then have "s = ''youtube.com/watch?v='' @ s1 \<or> s = ''youtu.be/'' @ s1"
    unfolding re_lit_mem by auto
  then show ?thesis
    by (metis list.set_intros(1,2))
qed

lemma scheme_inv:
  assumes "(c1, s1) \<in> set (re_opt (re_group 1
        (re_seq (re_lit ''http'') (re_seq (re_opt (re_lit ''s'')) (re_lit ''://'')))) (caps, s))"
  shows "\<exists>scheme. scheme \<in> set ['''', ''http://'', ''https://''] \<and> s = scheme @ s1"
proof -
  from assms have "s = s1 \<or> (\<exists>c. (c, s1) \<in> set (re_seq (re_lit ''http'')
       (re_seq (re_opt (re_lit ''s'')) (re_lit ''://'')) (caps, s)))"
    unfolding set_re_opt set_re_group by auto
  then have "s = s1 \<or> (\<exists>c a b. s = ''http'' @ a \<and> (b = a \<or> a = ''s'' @ b) \<and> b = ''://'' @ s1)"
    unfolding set_re_seq by (auto simp: set_re_opt re_lit_mem set_re_lit)
  then have "s = [] @ s1 \<or> s = ''http://'' @ s1 \<or> s = ''https://'' @ s1"
    by auto
  then show ?thesis
    by (metis list.set_intros(1,2))
qed



lemma id_suffix_inv:
  assumes "x \<in> set (re_seq (re_group 4 (re_times 11 (re_class id_char)))
            (re_seq (re_opt (re_group 5 (re_seq (re_class amp_or_qmark) re_dot_star))) re_eos) (caps, s))"
  shows "\<exists>tok t. s = tok @ t \<and> length tok = 11 \<and> list_all id_char tok \<and> query_suffix t"
proof -
  from assms obtain y where y: "y \<in> set (re_group 4 (re_times 11 (re_class id_char)) (caps, s))"
    and x: "x \<in> set (re_seq (re_opt (re_group 5 (re_seq (re_class amp_or_qmark) re_dot_star))) re_eos y)"
    by (auto simp: set_re_seq)
  from y obtain z where z: "z \<in> set (re_times 11 (re_class id_char) (caps, s))"
    and yz: "y = ((fst z)(4 \<mapsto> take (length s - length (snd z)) s), snd z)"
    by (auto simp: set_re_group)
  from set_re_times_class [OF z] obtain tok t where
    s: "s = tok @ t" "length tok = 11" "list_all id_char tok" "z = (caps, t)" by blast
  from x yz s(4) have "query_suffix t"
    by (cases t) (auto simp: suffix_unfold query_suffix_def split: if_splits)
  with s show ?thesis by blast
qed

lemma yt_match_form:
  assumes "x \<in> set (YOUTUBE_URL_REGEX (Map.empty, s))"
  shows "\<exists>scheme www host tok t. s = scheme @ www @ host @ tok @ t \<and>
     scheme \<in> set ['''', ''http://'', ''https://''] \<and> www \<in> set ['''', ''www.''] \<and>
     host \<in> set [''youtube.com/watch?v='', ''youtu.be/''] \<and>
     length tok = 11 \<and> list_all id_char tok \<and> query_suffix t"
proof -
  from assms obtain y1 where
    1: "y1 \<in> set (re_opt (re_group 1
        (re_seq (re_lit ''http'') (re_seq (re_opt (re_lit ''s'')) (re_lit ''://'')))) (Map.empty, s))"
    and r1: "x \<in> set (re_seq (re_opt (re_group 2 (re_lit ''www.'')))
    (re_seq (re_group 3 (re_alt (re_lit ''youtube.com/watch?v='') (re_lit ''youtu.be/'')))
    (re_seq (re_group 4 (re_times 11 (re_class id_char)))
    (re_seq (re_opt (re_group 5 (re_seq (re_class amp_or_qmark) re_dot_star)))
     re_eos))) y1)"
    unfolding YOUTUBE_URL_REGEX_def set_re_seq [of "re_opt (re_group 1 _)"] by blast
  from r1 obtain y2 where
    2: "y2 \<in> set (re_opt (re_group 2 (re_lit ''www.'')) y1)"
    and r2: "x \<in> set (re_seq (re_group 3 (re_alt (re_lit ''youtube.com/watch?v='') (re_lit ''youtu.be/'')))
    (re_seq (re_group 4 (re_times 11 (re_class id_char)))
    (re_seq (re_opt (re_group 5 (re_seq (re_class amp_or_qmark) re_dot_star)))
     re_eos)) y2)"
    unfolding set_re_seq [of "re_opt (re_group 2 _)"] by blast
  from r2 obtain y3 where
    3: "y3 \<in> set (re_group 3 (re_alt (re_lit ''youtube.com/watch?v='') (re_lit ''youtu.be/'')) y2)"
    and 4: "x \<in> set (re_seq (re_group 4 (re_times 11 (re_class id_char)))
    (re_seq (re_opt (re_group 5 (re_seq (re_class amp_or_qmark) re_dot_star)))
     re_eos) y3)"
    unfolding set_re_seq [of "re_group 3 _"] by blast
  obtain c1 s1 c2 s2 c3 s3 where y: "y1 = (c1, s1)" "y2 = (c2, s2)" "y3 = (c3, s3)"
    by (cases y1, cases y2, cases y3) blast
  from scheme_inv [OF 1 [unfolded y]] obtain scheme where
    a: "scheme \<in> set ['''', ''http://'', ''https://'']" "s = scheme @ s1" by blast
  from www_inv [OF 2 [unfolded y]] obtain www where
    b: "www \<in> set ['''', ''www.'']" "s1 = www @ s2" by blast
  from host_inv [OF 3 [unfolded y]] obtain host where
    c: "host \<in> set [''youtube.com/watch?v='', ''youtu.be/'']" "s2 = host @ s3" by blast
  from id_suffix_inv [OF 4 [unfolded y]] obtain tok t where
    d: "s3 = tok @ t" "length tok = 11" "list_all id_char tok" "query_suffix t" by blast
  from a(2) b(2) c(2) d(1) have "s = scheme @ www @ host @ tok @ t" by simp
  with a(1) b(1) c(1) d(2-4) show ?thesis by blast
qed

lemma valid_form:
  assumes "isValidYouTubeUrl url"
  shows "\<exists>scheme www host tok t. url = scheme @ www @ host @ tok @ t \<and>
     scheme \<in> set ['''', ''http://'', ''https://''] \<and> www \<in> set ['''', ''www.''] \<and>
     host \<in> set [''youtube.com/watch?v='', ''youtu.be/''] \<and>
     length tok = 11 \<and> list_all id_char tok \<and> query_suffix t"
proof -
  from assms obtain x where "x \<in> set (YOUTUBE_URL_REGEX (Map.empty, url))"
    by (cases "YOUTUBE_URL_REGEX (Map.empty, url)") (auto simp: isValidYouTubeUrl_def match_from_start_def)
  then show ?thesis by (rule yt_match_form)
qed



section \<open>Facts about the extractor\<close>

lemma valid_extract_inline:
  assumes "isValidYouTubeUrl url"
  shows "\<exists>tok. extractYouTubeVideoId url = Some tok \<and> inline_videoId url = Some tok \<and> tok \<noteq> []"
proof -
  from valid_form [OF assms] obtain scheme www host tok t where
    f: "url = scheme @ www @ host @ tok @ t"
    "scheme \<in> set ['''', ''http://'', ''https://'']" "www \<in> set ['''', ''www.'']"
    "host \<in> set [''youtube.com/watch?v='', ''youtu.be/'']"
    "length tok = 11" "list_all id_char tok" "query_suffix t" by blast
  from yt_accepts_form [OF f(2-7)] have "extractYouTubeVideoId url = Some tok"
    by (auto simp: extractYouTubeVideoId_def f(1))
  moreover from f(5) have "tok \<noteq> []" by auto
  ultimately show ?thesis using inline_accepts_form [OF f(2-6), of t] f(1) by simp
qed

lemma extract_None_iff: "extractYouTubeVideoId url = None \<longleftrightarrow> \<not> isValidYouTubeUrl url"
  using valid_extract_inline [of url]
  by (auto simp: isValidYouTubeUrl_def extractYouTubeVideoId_def split: option.splits)

lemma extractAudio_valid:
  assumes "extractYouTubeVideoId url = Some vid"
  shows "extractAudio cfg e url w =
    (let path = job_path cfg e vid w;
         cmd = job_command cfg e url vid w;
         w2 = console_log (''[YouTube Extract] Command: '' @ cmd)
                (console_log (''[YouTube Extract] Starting extraction for: '' @ vid)
                   (w\<lparr>rng_calls := Suc (rng_calls w)\<rparr>))
     in case executeWithTimeout e cmd (timeoutMs cfg) w2 of
          (Inl message, w3) \<Rightarrow>
            (failure (if message = [] then ''Failed to extract audio from YouTube'' else message) None,
             console_log (''[YouTube Extract] Error: '' @ message) w3)
        | (Inr (out, err), w3) \<Rightarrow>
            (let w4 = (if err \<noteq> [] \<and> \<not> includes_str err ''WARNING''
                       then console_log (''[YouTube Extract] Warnings during extraction: '' @ err) w3
                       else w3)
             in if path \<notin> files w4
                then (failure ''Audio extraction failed: Output file not created'' (Some vid), w4)
                else (\<lparr> success = True, audioPath = Some path,
                        filename = Some (temp_filename cfg vid (randomHex e (rng_calls w))),
                        error = None, videoId = Some vid \<rparr>,
                      console_log (''[YouTube Extract] Successfully extracted to: '' @ path)
                        (w4\<lparr>tempFilesToCleanup := insert path (tempFilesToCleanup w4)\<rparr>))))"
proof -
  from assms have "isValidYouTubeUrl url" using extract_None_iff [of url] by auto
  with assms show ?thesis
    by (simp add: extractAudio_def job_path_def job_command_def Let_def)
qed

lemma extractAudio_settled:
  assumes "extractYouTubeVideoId url = Some vid"
    and "settle e (job_command cfg e url vid w) (timeoutMs cfg) = (r, timer_won)"
  shows "extractAudio cfg e url w =
    (let path = job_path cfg e vid w;
         cmd = job_command cfg e url vid w;
         w3 = w\<lparr> rng_calls := Suc (rng_calls w),
                 console := console w @ [''[YouTube Extract] Starting extraction for: '' @ vid,
                                         ''[YouTube Extract] Command: '' @ cmd],
                 spawned := spawned w @ [cmd],
                 files := files w \<union> creates (child e cmd),
                 running := (if timer_won then insert cmd (running w) else running w) \<rparr>
     in case r of
          Inl message \<Rightarrow>
            (failure (if message = [] then ''Failed to extract audio from YouTube'' else message) None,
             console_log (''[YouTube Extract] Error: '' @ message) w3)
        | Inr (out, err) \<Rightarrow>
            (let w4 = (if err \<noteq> [] \<and> \<not> includes_str err ''WARNING''
                       then console_log (''[YouTube Extract] Warnings during extraction: '' @ err) w3
                       else w3)
             in if path \<notin> files w4
                then (failure ''Audio extraction failed: Output file not created'' (Some vid), w4)
                else (\<lparr> success = True, audioPath = Some path,
                        filename = Some (temp_filename cfg vid (randomHex e (rng_calls w))),
                        error = None, videoId = Some vid \<rparr>,
                      console_log (''[YouTube Extract] Successfully extracted to: '' @ path)
                        (w4\<lparr>tempFilesToCleanup := insert path (tempFilesToCleanup w4)\<rparr>))))"
  unfolding extractAudio_valid [OF assms(1)] Let_def executeWithTimeout_def assms(2) prod.case
  by (cases r) (auto simp: console_log_def)

lemma buffer_overflow_rejects:
  assumes "extractYouTubeVideoId url = Some vid"
    and "c = child e (job_command cfg e url vid w)"
    and "exits_before c (timer_delay (timeoutMs cfg))"
    and "received c (timer_delay (timeoutMs cfg)) = Inl (t, s)"
  shows "fst (extractAudio cfg e url w) =
           failure (stream_name s @ '' maxBuffer length exceeded'') None"
proof -
  have st: "settle e (job_command cfg e url vid w) (timeoutMs cfg) =
      (Inl (stream_name s @ '' maxBuffer length exceeded''), False)"
    using assms(2-4) by (simp add: settle_def Let_def closes_before_def)
  show ?thesis
    unfolding extractAudio_settled [OF assms(1) st] Let_def
    by (cases s) (simp_all add: stream_name_def)
qed

lemma cleanupFile_unfold:
  "cleanupFile e path w =
     (if path \<in> files w \<and> unlink_error e path = None
      then (True, console_log (''[YouTube Extract] Cleaned up: '' @ path)
              (w\<lparr>cleanup_calls := cleanup_calls w @ [path], files := files w - {path},
                 tempFilesToCleanup := tempFilesToCleanup w - {path}\<rparr>))
      else if path \<in> files w
      then (False, console_log (''[YouTube Extract] Cleanup error for '' @ path @ '': '' @ the (unlink_error e path))
              (w\<lparr>cleanup_calls := cleanup_calls w @ [path]\<rparr>))
      else (False, w\<lparr>cleanup_calls := cleanup_calls w @ [path]\<rparr>))"
  by (auto simp: cleanupFile_def Let_def console_log_def split: option.splits)

declare string_of_nat.simps [simp del]


lemma sample_id: "extractYouTubeVideoId sample_url = Some ''dQw4w9WgXcQ''"
  unfolding sample_url_def by code_simp

lemma sample_join:
  "join_path ''/tmp'' ''viajera_dQw4w9WgXcQ_00112233aabbccdd.mp3'' =
     ''/tmp/viajera_dQw4w9WgXcQ_00112233aabbccdd.mp3''"
  by (simp add: join_path_def normalize_path_def Let_def)

lemma sample_job_path:
  "job_path default_config (sample_env c u) ''dQw4w9WgXcQ'' w = sample_path"
  using sample_join
  by (simp add: job_path_def sample_env_def temp_filename_def
      default_config_def new_config_def format_name_def sample_path_def)

lemma sample_settle:
  "settle (sample_env (sample_child (Some 1000) 0 []) u) cmd (timeoutMs default_config) =
     (Inr ([], []), False)"
  by (simp add: settle_def sample_env_def sample_child_def default_config_def new_config_def
      timer_delay_def received_def exits_before_def Let_def)

section \<open>Facts about the orchestrator\<close>


lemma no_console_log [simp]: "no_console (console_log m w) = no_console w"
  by (simp add: no_console_def console_log_def)





lemma POST_valid:
  assumes "isValidYouTubeUrl url" "extractYouTubeVideoId url = Some vid"
    "ratelimit_limit r = Inr rl" "rl_success rl"
  shows "POST this e r (Json_value (Some url)) w =
     (let w1 = console_log (''[Process YouTube] Starting pipeline for URL: '' @ url) w;
          cacheKey = getCacheKey vid
      in case redis_get r cacheKey of
           Inl message \<Rightarrow>
             extract_and_transcribe this e r url vid cacheKey
               (console_log (''[Process YouTube] Cache lookup failed, proceeding with extraction: '' @ message) w1)
         | Inr cached \<Rightarrow>
             if cached = None \<or> cached = Some []
             then extract_and_transcribe this e r url vid cacheKey w1
             else (Success vid (the cached) True cacheKey,
                   console_log ''[Process YouTube] Pipeline completed''
                     (console_log (''[Process YouTube] Cache hit for video: '' @ vid) w1)))"
proof -
  from valid_extract_inline [OF assms(1)] assms(2)
  have i: "inline_videoId url = Some vid" and v: "vid \<noteq> []" by auto
  from assms(1) have u: "url \<noteq> []" by (auto simp: isValidYouTubeUrl_def match_from_start_def
        YOUTUBE_URL_REGEX_def re_seq.simps re_opt.simps re_group.simps re_alt.simps re_lit.simps)
  show ?thesis
    unfolding POST_def using assms(1,3,4) i v u by (simp add: Let_def)
qed

lemma sample_valid: "isValidYouTubeUrl sample_url"
  using sample_id extract_None_iff [of sample_url] by auto

lemma sample_extraction:
  "extractAudio default_config (sample_env (sample_child (Some 1000) 0 []) None) sample_url w =
     (\<lparr> success = True, audioPath = Some sample_path,
        filename = Some ''viajera_dQw4w9WgXcQ_00112233aabbccdd.mp3'',
        error = None, videoId = Some ''dQw4w9WgXcQ'' \<rparr>,
      w\<lparr> rng_calls := Suc (rng_calls w),
         spawned := spawned w @ [buildYtdlpCommand default_config sample_url sample_path],
         files := insert sample_path (files w),
         tempFilesToCleanup := insert sample_path (tempFilesToCleanup w),
         console := console w @
           [''[YouTube Extract] Starting extraction for: dQw4w9WgXcQ'',
            ''[YouTube Extract] Command: '' @ buildYtdlpCommand default_config sample_url sample_path,
            ''[YouTube Extract] Successfully extracted to: '' @ sample_path] \<rparr>)"
proof -
  have f: "temp_filename default_config ''dQw4w9WgXcQ''
      (randomHex (sample_env (sample_child (Some 1000) 0 []) None) (rng_calls w)) =
      ''viajera_dQw4w9WgXcQ_00112233aabbccdd.mp3''"
    by (simp add: sample_env_def temp_filename_def default_config_def new_config_def format_name_def)
  have c: "creates (child (sample_env (sample_child (Some 1000) 0 []) None) cmd) = {sample_path}" for cmd
    by (simp add: sample_env_def sample_child_def)
  show ?thesis
    unfolding extractAudio_settled [OF sample_id sample_settle] job_command_def sample_job_path f Let_def c
    by (simp add: console_log_def)
qed

lemma sample_route:
  "ratelimit_limit (sample_route_env lookup wr) = Inr \<lparr> rl_success = True, rl_remaining = 9, rl_reset = 0 \<rparr>"
  "redis_get (sample_route_env lookup wr) key = lookup"
  "redis_setex (sample_route_env lookup wr) key text = wr"
  by (simp_all add: sample_route_env_def)


text \<open>
  How often \<open>cleanupFile\<close> is entered after a successful extraction depends only on
  whether the call through \<open>this\<close> returns: once if it does, never if it throws.
\<close>

lemma extractAudio_cleanup_calls:
  "cleanup_calls (snd (extractAudio cfg e url w)) = cleanup_calls w"
proof (cases "extractYouTubeVideoId url")
  case None
  then have "\<not> isValidYouTubeUrl url" by (simp add: extract_None_iff)
  then show ?thesis by (simp add: extractAudio_def)
next
  case (Some vid)
  obtain r b where st: "settle e (job_command cfg e url vid w) (timeoutMs cfg) = (r, b)"
    by (cases "settle e (job_command cfg e url vid w) (timeoutMs cfg)") auto
  show ?thesis
    unfolding extractAudio_settled [OF Some st] Let_def
    by (cases r) (auto simp: console_log_def)
qed

lemma cleanup_once_iff_call_returns:
  assumes "extractAudio default_config e url
             (console_log (''[Process YouTube] Cache miss, extracting audio for: '' @ vid) w) = (er, w1)"
    and "success er" and "audioPath er = Some path" and "path \<noteq> []"
  shows "cleanup_calls (snd (extract_and_transcribe this e r url vid key w)) =
     (case this_callTranscriptionApi this path of
        Inl message \<Rightarrow> cleanup_calls w
      | Inr result \<Rightarrow> cleanup_calls w @ [path])"
proof -
  from extractAudio_cleanup_calls [of default_config e url
      "console_log (''[Process YouTube] Cache miss, extracting audio for: '' @ vid) w"] assms(1)
  have c: "cleanup_calls w1 = cleanup_calls w" by (simp add: console_log_def)
  show ?thesis
    unfolding extract_and_transcribe_def assms(1) prod.case
    using assms(2-4) c
    by (auto simp: Let_def unexpected_def cleanupFile_unfold console_log_def
        split: sum.splits option.splits)
qed

section \<open>Facts about the shell command and the retry loop\<close>

lemma sh_quoted_escape:
  "sh_quoted acc (escape_quotes p @ CHR 0x27 # rest) = sh_unquoted (Some (acc @ p)) rest"
proof (induction p arbitrary: acc)
  case Nil
  then show ?case by (simp add: escape_quotes_def)
next
  case (Cons c p)
  have e1: "escape_quotes (CHR 0x27 # p) = [CHR 0x27, CHR 0x5C, CHR 0x27, CHR 0x27] @ escape_quotes p"
    by (simp add: escape_quotes_def)
  have e2: "escape_quotes (c # p) = c # escape_quotes p" if "c \<noteq> CHR 0x27"
    using that by (simp add: escape_quotes_def)
  show ?case
  proof (cases "c = CHR 0x27")
    case True
    then show ?thesis using Cons.IH [of "acc @ [c]"] by (simp add: e1 word_so_far_def)
  next
    case False
    then show ?thesis using Cons.IH [of "acc @ [c]"] by (simp add: e2)
  qed
qed

lemma sh_quoted_plain:
  "CHR 0x27 \<notin> set u \<Longrightarrow> sh_quoted acc (u @ CHR 0x27 # rest) = sh_unquoted (Some (acc @ u)) rest"
  by (induction u arbitrary: acc) auto

lemma output_path_one_word:
  "sh_words (''-o '' @ [CHR 0x27] @ escape_quotes p @ [CHR 0x27]) = Some [Word ''-o'', Word p]"
  by (simp add: sh_words_def word_so_far_def emit_def sh_quoted_escape)

lemma command_words_plain_url:
  assumes "CHR 0x27 \<notin> set url"
  shows "sh_words (buildYtdlpCommand default_config url p) =
     Some [Word ''yt-dlp'', Word ''-x'', Word ''--audio-format'', Word ''mp3'',
           Word ''--audio-quality'', Word ''128'', Word ''-f'', Word ''bestaudio[ext=mp3]/best'',
           Word ''--quiet'', Word ''--no-warnings'', Word ''-o'', Word p, Word url]"
  by (simp add: sh_words_def buildYtdlpCommand_def default_config_def new_config_def formatMap_def
      format_name_def Let_def word_so_far_def emit_def sh_quoted_escape sh_quoted_plain [OF assms])

lemma injection_valid: "isValidYouTubeUrl injection_url"
  unfolding injection_url_def by code_simp

lemma getBackoffDelay_jitter:
  assumes "0 \<le> r1" "r1 < 1"
  shows "\<bar>getBackoffDelay n r1 r2 - real (min (baseDelayMs retryConfig * 2 ^ n) (maxDelayMs retryConfig))\<bar>
           \<le> 0.2 * real (min (baseDelayMs retryConfig * 2 ^ n) (maxDelayMs retryConfig))"
proof -
  define d where "d = real (min (baseDelayMs retryConfig * 2 ^ n) (maxDelayMs retryConfig))"
  have d0: "0 \<le> d" by (simp add: d_def)
  have "d * r1 \<le> d * 1" using assms(2) d0 by (intro mult_left_mono) auto
  moreover have "0 \<le> d * r1" using assms(1) d0 by simp
  ultimately have "\<bar>d * 0.2 * r1\<bar> \<le> 0.2 * d" by simp
  moreover have "getBackoffDelay n r1 r2 - d = (if r2 > 0.5 then d * 0.2 * r1 else - (d * 0.2 * r1))"
    by (simp add: getBackoffDelay_def Let_def d_def)
  ultimately show ?thesis unfolding d_def [symmetric] by auto
qed

lemma getBackoffDelay_le_max:
  assumes "0 \<le> r1" "r1 < 1" "n < 2"
  shows "getBackoffDelay n r1 r2 \<le> real (maxDelayMs retryConfig)"
proof -
  from assms(3) consider "n = 0" | "n = Suc 0" by (cases n) auto
  then show ?thesis
    using assms(1,2) by cases (auto simp: getBackoffDelay_def retryConfig_def Let_def)
qed

lemma transcribe_all_throw:
  assumes "\<And>i. api i = Inl (Thrown (err i))"
  shows "transcribe api rnd =
     (if permanent (classifyError (err 0))
      then \<lparr> reply = Some (failed (or_else (err_message (err 0))
                         (''Transcription failed: '' @ code_name (classifyError (err 0))))
                       (classifyError (err 0))),
             attempts = 1, sleeps = [] \<rparr>
      else if permanent (classifyError (err 1))
      then \<lparr> reply = Some (failed (or_else (err_message (err 1))
                         (''Transcription failed: '' @ code_name (classifyError (err 1))))
                       (classifyError (err 1))),
             attempts = 2, sleeps = [getBackoffDelay 0 (rnd 0) (rnd 1)] \<rparr>
      else \<lparr> reply = Some (failed (or_else (err_message (err 2))
                         (if permanent (classifyError (err 2))
                          then ''Transcription failed: '' @ code_name (classifyError (err 2))
                          else ''Transcription failed after 3 attempts''))
                       (classifyError (err 2))),
             attempts = 3,
             sleeps = [getBackoffDelay 0 (rnd 0) (rnd 1), getBackoffDelay 1 (rnd 2) (rnd 3)] \<rparr>)"
proof -
  have m: "maxAttempts retryConfig = Suc (Suc (Suc 0))" by (simp add: retryConfig_def)
  have s: "string_of_nat (Suc (Suc (Suc 0))) = ''3''" by (simp add: string_of_nat.simps)
  show ?thesis
    unfolding transcribe_def m
    by (simp add: assms Let_def permanent_def m s numeral_2_eq_2 numeral_3_eq_3)
qed

section \<open>Identifier extraction\<close>

text \<open>
  Claim C5. Take any token of 11 characters over letters, digits, hyphen and underscore,
  and any URL that carries it in a recognized form: an optional \<open>http://\<close> or
  \<open>https://\<close>, an optional \<open>www.\<close>, the watch form \<open>youtube.com/watch?v=\<close> or
  the short-link form \<open>youtu.be/\<close>, the token, and then nothing or trailing query
  parameters. Then \<open>extractYouTubeVideoId\<close> returns exactly that token. The function is
  pure, so the same URL always yields the same identifier.
\<close>

theorem extract_token:
  assumes "scheme \<in> set ['''', ''http://'', ''https://'']" "www \<in> set ['''', ''www.'']"
    "host \<in> set [''youtube.com/watch?v='', ''youtu.be/'']"
    "length tok = 11" "list_all id_char tok" "query_suffix t"
  shows "extractYouTubeVideoId (scheme @ www @ host @ tok @ t) = Some tok"
  using yt_accepts_form [OF assms] by (auto simp: extractYouTubeVideoId_def)

theorem extract_token_witness:
  "''https://'' \<in> set ['''', ''http://'', ''https://''] \<and> ''www.'' \<in> set ['''', ''www.''] \<and>
   ''youtube.com/watch?v='' \<in> set [''youtube.com/watch?v='', ''youtu.be/''] \<and>
   length ''dQw4w9WgXcQ'' = 11 \<and> list_all id_char ''dQw4w9WgXcQ'' \<and> query_suffix ''&t=42'' \<and>
   extractYouTubeVideoId ''https://www.youtube.com/watch?v=dQw4w9WgXcQ&t=42'' = Some ''dQw4w9WgXcQ''"
  using extract_token [of "''https://''" "''www.''" "''youtube.com/watch?v=''" "''dQw4w9WgXcQ''" "''&t=42''"]
  by (simp add: id_char_def query_suffix_def amp_or_qmark_def line_terminator_def)

text \<open>
  Claim C10. A URL is accepted by \<open>isValidYouTubeUrl\<close> exactly when
  \<open>extractYouTubeVideoId\<close> finds an identifier in it, and for every accepted URL the
  identifier that the \<open>POST\<close> handler extracts with its own regular expression (the one
  the cache key is built from) is the one \<open>extractYouTubeVideoId\<close> returns.
\<close>

theorem valid_iff_identifier:
  "(isValidYouTubeUrl url \<longleftrightarrow> extractYouTubeVideoId url \<noteq> None) \<and>
   (isValidYouTubeUrl url \<longrightarrow> inline_videoId url = extractYouTubeVideoId url)"
proof -
  have a: "inline_videoId url = extractYouTubeVideoId url \<and> extractYouTubeVideoId url \<noteq> None"
    if "isValidYouTubeUrl url"
  proof -
    from valid_form [OF that] obtain scheme www host tok t where
      f: "url = scheme @ www @ host @ tok @ t"
      "scheme \<in> set ['''', ''http://'', ''https://'']" "www \<in> set ['''', ''www.'']"
      "host \<in> set [''youtube.com/watch?v='', ''youtu.be/'']"
      "length tok = 11" "list_all id_char tok" "query_suffix t" by blast
    from yt_accepts_form [OF f(2-7)] have "extractYouTubeVideoId url = Some tok"
      by (auto simp: extractYouTubeVideoId_def f(1))
    with inline_accepts_form [OF f(2-6), of t] f(1)
    show ?thesis by simp
  qed
  have b: "isValidYouTubeUrl url" if "extractYouTubeVideoId url \<noteq> None"
    using that by (auto simp: isValidYouTubeUrl_def extractYouTubeVideoId_def split: option.splits)
  from a b show ?thesis by blast
qed

theorem valid_iff_identifier_witness:
  "isValidYouTubeUrl ''https://youtu.be/dQw4w9WgXcQ?v=AAAAAAAAAAA'' \<and>
   inline_videoId ''https://youtu.be/dQw4w9WgXcQ?v=AAAAAAAAAAA'' = Some ''dQw4w9WgXcQ'' \<and>
   extractYouTubeVideoId ''https://youtu.be/dQw4w9WgXcQ?v=AAAAAAAAAAA'' = Some ''dQw4w9WgXcQ''"
proof -
  have x: "extractYouTubeVideoId ''https://youtu.be/dQw4w9WgXcQ?v=AAAAAAAAAAA'' = Some ''dQw4w9WgXcQ''"
    by code_simp
  with valid_iff_identifier [of "''https://youtu.be/dQw4w9WgXcQ?v=AAAAAAAAAAA''"]
  show ?thesis by simp
qed


section \<open>The extractor's failure handling\<close>

text \<open>
  Claim C9. For every URL that \<open>isValidYouTubeUrl\<close> rejects, or from which no identifier
  can be derived, \<open>extractAudio\<close> returns a failure result at once: the result carries
  no path and no file name, and the world is returned as it was, so no command was handed
  to \<open>exec\<close> and no random bytes were drawn for a temporary path.
\<close>

theorem invalid_url_rejected:
  assumes "\<not> isValidYouTubeUrl url \<or> extractYouTubeVideoId url = None"
  shows "extractAudio cfg e url w =
     (\<lparr> success = False, audioPath = None, filename = None,
        error = Some ''Invalid YouTube URL format'', videoId = None \<rparr>, w)"
proof -
  from assms have "\<not> isValidYouTubeUrl url" using extract_None_iff [of url] by auto
  then show ?thesis by (simp add: extractAudio_def failure_def)
qed

theorem invalid_url_rejected_witness:
  "\<not> isValidYouTubeUrl ''https://example.com/video'' \<and>
   extractAudio default_config (sample_env (sample_child (Some 1000) 0 []) None)
       ''https://example.com/video'' fresh_world =
     (\<lparr> success = False, audioPath = None, filename = None,
        error = Some ''Invalid YouTube URL format'', videoId = None \<rparr>, fresh_world) \<and>
   spawned fresh_world = [] \<and> rng_calls fresh_world = 0"
proof -
  have n: "\<not> isValidYouTubeUrl ''https://example.com/video''" by code_simp
  with invalid_url_rejected [of "''https://example.com/video''" default_config
      "sample_env (sample_child (Some 1000) 0 []) None" fresh_world]
  show ?thesis by (simp add: fresh_world_def)
qed

text \<open>
  Claim C6, as amended. \<open>cleanupFile\<close> returns \<open>true\<close> exactly when the path is present
  and its deletion succeeds; in particular it returns \<open>false\<close>, and raises nothing, when the
  path is absent. The path leaves the disk and the pending-cleanup registry exactly when
  \<open>true\<close> is returned; when the path was absent or the deletion raised an error, the
  registry is left as it was.
\<close>

theorem cleanupFile_registry:
  "fst (cleanupFile e path w) = (path \<in> files w \<and> unlink_error e path = None) \<and>
   files (snd (cleanupFile e path w)) =
     (if fst (cleanupFile e path w) then files w - {path} else files w) \<and>
   tempFilesToCleanup (snd (cleanupFile e path w)) =
     (if fst (cleanupFile e path w) then tempFilesToCleanup w - {path} else tempFilesToCleanup w)"
  by (simp add: cleanupFile_unfold console_log_def)


text \<open>
  The claim as stated fails: when \<open>unlink\<close> raises an error, the path is still in the
  registry after the call.
\<close>

theorem cleanupFile_registry_counterexample:
  "unlink_error (sample_env (sample_child (Some 1000) 0 []) (Some ''EPERM'')) sample_path = Some ''EPERM'' \<and>
   sample_path \<in> files world_with_file \<and>
   fst (cleanupFile (sample_env (sample_child (Some 1000) 0 []) (Some ''EPERM'')) sample_path world_with_file) = False \<and>
   sample_path \<in> tempFilesToCleanup
      (snd (cleanupFile (sample_env (sample_child (Some 1000) 0 []) (Some ''EPERM'')) sample_path world_with_file))"
  by (simp add: cleanupFile_unfold console_log_def sample_env_def world_with_file_def fresh_world_def)

theorem cleanupFile_registry_witness:
  "fst (cleanupFile (sample_env (sample_child (Some 1000) 0 []) None) sample_path world_with_file) = True \<and>
   sample_path \<notin> tempFilesToCleanup
      (snd (cleanupFile (sample_env (sample_child (Some 1000) 0 []) None) sample_path world_with_file)) \<and>
   fst (cleanupFile (sample_env (sample_child (Some 1000) 0 []) None) sample_path fresh_world) = False \<and>
   tempFilesToCleanup
      (snd (cleanupFile (sample_env (sample_child (Some 1000) 0 []) None) sample_path fresh_world)) = {}"
  using cleanupFile_registry [of "sample_env (sample_child (Some 1000) 0 []) None" sample_path world_with_file]
    cleanupFile_registry [of "sample_env (sample_child (Some 1000) 0 []) None" sample_path fresh_world]
  by (simp add: sample_env_def world_with_file_def fresh_world_def)

text \<open>
  Claim C8, as amended. For every downloader invocation that exits before the timer fires,
  stderr output that stays within the 10 MB buffer of \<open>exec\<close> is tolerated as non-fatal
  whatever it says, warning-level or not (it is only logged): \<open>extractAudio\<close> succeeds
  exactly when neither output stream exceeds the buffer, the exit status is zero and the
  output file exists afterwards. A non-zero exit status gives a failure result that carries
  the process error's message.
\<close>

theorem stderr_not_fatal:
  assumes "extractYouTubeVideoId url = Some vid"
    and "c = child e (job_command cfg e url vid w)"
    and "run_ms c = Some t" and "t < timer_delay (timeoutMs cfg)"
  shows "success (fst (extractAudio cfg e url w)) =
           (within_buffer c (timer_delay (timeoutMs cfg)) \<and> exit_code c = 0 \<and>
            job_path cfg e vid w \<in> files w \<union> creates c) \<and>
         (if within_buffer c (timer_delay (timeoutMs cfg)) \<and> exit_code c \<noteq> 0
          then error (fst (extractAudio cfg e url w)) =
                 Some (if exec_error c = [] then ''Failed to extract audio from YouTube''
                       else exec_error c)
          else True)"
proof -
  have x: "exits_before c (timer_delay (timeoutMs cfg))"
    using assms(3,4) by (simp add: exits_before_def)
  obtain r b where st: "settle e (job_command cfg e url vid w) (timeoutMs cfg) = (r, b)"
    by (cases "settle e (job_command cfg e url vid w) (timeoutMs cfg)") auto
  show ?thesis
  proof (cases "received c (timer_delay (timeoutMs cfg))")
    case (Inl overflow)
    then have "\<exists>m. r = Inl m"
      using st x assms(2)
      by (cases overflow) (auto simp: settle_def Let_def closes_before_def)
    then obtain m where r: "r = Inl m" by blast
    show ?thesis
      unfolding extractAudio_settled [OF assms(1) st] Let_def r
      using Inl by (simp add: within_buffer_def failure_def)
  next
    case (Inr res)
    obtain out err where o: "res = (out, err)" by (cases res) auto
    from Inr o st x assms(2)
    have r: "r = (if exit_code c = 0 then Inr (out, err) else Inl (exec_error c))" and b: "\<not> b"
      by (auto simp: settle_def Let_def)
    show ?thesis
      unfolding extractAudio_settled [OF assms(1) st] Let_def r
      using Inr b assms(2) by (auto simp: within_buffer_def failure_def console_log_def)
  qed
qed

text \<open>
  The claim as stated fails: a download that exits with status 0, writes its output file
  and prints a non-warning line on stderr is reported as a success.
\<close>

theorem stderr_not_fatal_counterexample:
  "chunks (sample_child (Some 1000) 0 ''ERROR: unable to download'') =
     [(10, Stderr, ''ERROR: unable to download'')] \<and>
   exit_code (sample_child (Some 1000) 0 ''ERROR: unable to download'') = 0 \<and>
   \<not> includes_str ''ERROR: unable to download'' ''WARNING'' \<and>
   success (fst (extractAudio default_config
      (sample_env (sample_child (Some 1000) 0 ''ERROR: unable to download'') None)
      sample_url fresh_world))"
proof -
  have n: "\<not> includes_str ''ERROR: unable to download'' ''WARNING''" by simp
  have st: "settle (sample_env (sample_child (Some 1000) 0 ''ERROR: unable to download'') None)
      (job_command default_config (sample_env (sample_child (Some 1000) 0 ''ERROR: unable to download'') None)
         sample_url ''dQw4w9WgXcQ'' fresh_world) (timeoutMs default_config) =
      (Inr ([], ''ERROR: unable to download''), False)"
    by (simp add: settle_def sample_env_def sample_child_def default_config_def new_config_def
      timer_delay_def received_def exits_before_def Let_def byteLength_def maxBuffer_def)
  have "success (fst (extractAudio default_config
      (sample_env (sample_child (Some 1000) 0 ''ERROR: unable to download'') None)
      sample_url fresh_world))"
    unfolding extractAudio_settled [OF sample_id st] sample_job_path Let_def
    by (simp add: console_log_def sample_env_def sample_child_def fresh_world_def)
  with n show ?thesis by (simp add: sample_child_def)
qed

theorem stderr_not_fatal_witness:
  "extractYouTubeVideoId sample_url = Some ''dQw4w9WgXcQ'' \<and>
   run_ms (sample_child (Some 1000) 1 ''WARNING: slow'') = Some 1000 \<and>
   (1000::nat) < timer_delay (timeoutMs default_config) \<and>
   within_buffer (sample_child (Some 1000) 1 ''WARNING: slow'') (timer_delay (timeoutMs default_config)) \<and>
   \<not> success (fst (extractAudio default_config
      (sample_env (sample_child (Some 1000) 1 ''WARNING: slow'') None) sample_url fresh_world)) \<and>
   error (fst (extractAudio default_config
      (sample_env (sample_child (Some 1000) 1 ''WARNING: slow'') None) sample_url fresh_world))
     = Some ''Command failed''"
proof -
  have t: "timer_delay (timeoutMs default_config) = 300000"
    by (simp add: timer_delay_def default_config_def new_config_def)
  have b: "within_buffer (sample_child (Some 1000) 1 ''WARNING: slow'') 300000"
    by (simp add: within_buffer_def received_def sample_child_def byteLength_def maxBuffer_def)
  from stderr_not_fatal [OF sample_id, of "sample_child (Some 1000) 1 ''WARNING: slow''"
      "sample_env (sample_child (Some 1000) 1 ''WARNING: slow'') None" default_config fresh_world 1000]
    sample_id b
  show ?thesis
    unfolding t by (simp add: sample_env_def sample_child_def)
qed




section \<open>The orchestrator\<close>



text \<open>
  Claim C1 says that once \<open>extractAudio\<close> has produced a temporary file, the handler
  calls \<open>cleanupFile\<close> on it exactly once on every exit path, also when the transcription
  call throws. The handler calls the module-level function \<open>callTranscriptionApi\<close>
  through \<open>this\<close>. A route handler is called as a plain function, so \<open>this\<close> is
  undefined and the call throws before any result exists; the outer \<open>catch\<close> answers with
  status 500 and the cleanup statement, which is not in a \<open>finally\<close> block, is never
  reached (lemma \<open>cleanup_once_iff_call_returns\<close> has both cases). The evaluation
  below is that request: a valid URL, a cache miss and a successful extraction.
  \<open>cleanupFile\<close> is never entered, and the file is still on disk and in the registry
  when the handler returns.
\<close>

theorem cleanup_skipped_when_call_throws:
  "fst (POST This_undefined (sample_env (sample_child (Some 1000) 0 []) None)
          (sample_route_env (Inr None) None) (Json_value (Some sample_url)) fresh_world) =
     Failure 500 (''Cannot read properties of undefined (reading '' @ [CHR 0x27] @
                  ''callTranscriptionApi'' @ [CHR 0x27] @ '')'') None \<and>
   no_console (snd (POST This_undefined (sample_env (sample_child (Some 1000) 0 []) None)
          (sample_route_env (Inr None) None) (Json_value (Some sample_url)) fresh_world)) =
     \<lparr> files = {sample_path}, tempFilesToCleanup = {sample_path}, running = {},
       spawned = [buildYtdlpCommand default_config sample_url sample_path], rng_calls = 1,
       cleanup_calls = [], console = [] \<rparr>"
proof -
  have "sample_path \<noteq> []" by (simp add: sample_path_def)
  then show ?thesis
    unfolding POST_valid [OF sample_valid sample_id sample_route(1), simplified] Let_def
      sample_route(2) extract_and_transcribe_def
    by (simp add: sample_extraction this_callTranscriptionApi_def unexpected_def
        console_log_def no_console_def fresh_world_def)
qed


section \<open>The shell command\<close>

text \<open>
  Claim C2 says that the command string quotes and escapes both the URL and the output
  path, so that each is one shell word whatever characters it holds.
  \<open>buildYtdlpCommand\<close> does this for the output path (lemma \<open>output_path_one_word\<close>)
  but puts the URL between single quotes as it is, and the URL grammar lets any character
  follow the identifier after \<open>&\<close> or \<open>?\<close>. The evaluation below takes an accepted
  URL whose query suffix holds a single quote: the shell reads the URL up to that quote as
  one word and the rest as a second command, \<open>touch /tmp/pwned\<close>.
\<close>

theorem url_breaks_out_of_quotes:
  "isValidYouTubeUrl injection_url \<and>
   sh_words (buildYtdlpCommand default_config injection_url sample_path) =
     Some [Word ''yt-dlp'', Word ''-x'', Word ''--audio-format'', Word ''mp3'',
           Word ''--audio-quality'', Word ''128'', Word ''-f'', Word ''bestaudio[ext=mp3]/best'',
           Word ''--quiet'', Word ''--no-warnings'', Word ''-o'', Word sample_path,
           Word ''https://youtu.be/dQw4w9WgXcQ?'', Operator CHR '';'', Word ''touch'',
           Word ''/tmp/pwned'', Operator CHR '';'', Word '''']"
proof -
  have "sh_words (buildYtdlpCommand default_config injection_url sample_path) =
     Some [Word ''yt-dlp'', Word ''-x'', Word ''--audio-format'', Word ''mp3'',
           Word ''--audio-quality'', Word ''128'', Word ''-f'', Word ''bestaudio[ext=mp3]/best'',
           Word ''--quiet'', Word ''--no-warnings'', Word ''-o'', Word sample_path,
           Word ''https://youtu.be/dQw4w9WgXcQ?'', Operator CHR '';'', Word ''touch'',
           Word ''/tmp/pwned'', Operator CHR '';'', Word '''']"
    by (simp add: sh_words_def buildYtdlpCommand_def default_config_def new_config_def formatMap_def
      format_name_def Let_def word_so_far_def emit_def sh_quoted_escape injection_url_def)
  with injection_valid show ?thesis by simp
qed

section \<open>The retry policy of the transcription client\<close>

text \<open>
  Claim C4. Suppose every call of the service throws an error (a value other than
  \<open>null\<close> and \<open>undefined\<close>). Then \<open>transcribe\<close> returns a failure
  after at least one and at most three attempts, three being the attempt cap: exactly one
  attempt when the first classified error is permanent (authentication, unsupported format,
  file too large), three when none of the three errors is permanent; every error before
  the last attempt was transient, and if it stopped before the cap, the last error is
  permanent. The code it returns is the classified error of its last attempt. The delay it
  waits after failed attempt \<open>n\<close> is what \<open>getBackoffDelay\<close> computes:
  \<open>min (baseDelayMs * 2 ^ n) maxDelayMs\<close>, moved by a jitter of at most a fifth of it, and
  each of these delays is at most \<open>maxDelayMs\<close>.
\<close>

theorem transcribe_retry_policy:
  assumes "\<And>i. api i = Inl (Thrown (err i))" and "\<And>k. 0 \<le> (rnd k :: real) \<and> rnd k < 1"
  shows "reply (transcribe api rnd) \<noteq> None \<and>
     \<not> g_success (the (reply (transcribe api rnd))) \<and>
     1 \<le> attempts (transcribe api rnd) \<and>
     attempts (transcribe api rnd) \<le> maxAttempts retryConfig \<and>
     maxAttempts retryConfig = 3 \<and>
     (permanent (classifyError (err 0)) \<longrightarrow> attempts (transcribe api rnd) = 1) \<and>
     ((\<forall>i < 3. \<not> permanent (classifyError (err i))) \<longrightarrow> attempts (transcribe api rnd) = 3) \<and>
     (\<forall>i < attempts (transcribe api rnd) - 1. \<not> permanent (classifyError (err i))) \<and>
     (attempts (transcribe api rnd) < 3 \<longrightarrow>
        permanent (classifyError (err (attempts (transcribe api rnd) - 1)))) \<and>
     g_code (the (reply (transcribe api rnd))) =
       Some (classifyError (err (attempts (transcribe api rnd) - 1))) \<and>
     sleeps (transcribe api rnd) =
       map (\<lambda>n. getBackoffDelay n (rnd (2 * n)) (rnd (2 * n + 1)))
         [0..<attempts (transcribe api rnd) - 1] \<and>
     (\<forall>n < attempts (transcribe api rnd) - 1.
        \<bar>sleeps (transcribe api rnd) ! n -
           real (min (baseDelayMs retryConfig * 2 ^ n) (maxDelayMs retryConfig))\<bar>
          \<le> 0.2 * real (min (baseDelayMs retryConfig * 2 ^ n) (maxDelayMs retryConfig))) \<and>
     (\<forall>d \<in> set (sleeps (transcribe api rnd)). d \<le> real (maxDelayMs retryConfig))"
proof -
  note t = transcribe_all_throw [OF assms(1), where rnd = rnd]
  have r: "0 \<le> rnd k" "rnd k < 1" for k using assms(2) [of k] by auto
  note j0 = getBackoffDelay_jitter [where n = 0 and ?r1.0 = "rnd 0" and ?r2.0 = "rnd 1", OF r]
    and j1 = getBackoffDelay_jitter [where n = 1 and ?r1.0 = "rnd 2" and ?r2.0 = "rnd 3", OF r]
    and b0 = getBackoffDelay_le_max [where n = 0 and ?r1.0 = "rnd 0" and ?r2.0 = "rnd 1", OF r]
    and b1 = getBackoffDelay_le_max [where n = 1 and ?r1.0 = "rnd 2" and ?r2.0 = "rnd 3", OF r]
  have m: "maxAttempts retryConfig = 3" by (simp add: retryConfig_def)
  have u: "[0..<Suc 0] = [0]" "[0..<2::nat] = [0, 1]" by (simp_all add: upt_conv_Cons)
  consider (a) "permanent (classifyError (err 0))"
    | (b) "\<not> permanent (classifyError (err 0))" "permanent (classifyError (err 1))"
    | (c) "\<not> permanent (classifyError (err 0))" "\<not> permanent (classifyError (err 1))"
    by blast
  then show ?thesis
  proof cases
    case a
    then have "\<exists>i < 3. permanent (classifyError (err i))" by (intro exI [of _ 0]) simp
    with a show ?thesis unfolding t m by (simp add: failed_def)
  next
    case b
    then have "\<exists>i < 3. permanent (classifyError (err i))" by (intro exI [of _ 1]) simp
    with b show ?thesis unfolding t m using j0 b0
      by (auto simp: failed_def u)
  next
    case c
    have l: "i < 2 \<longleftrightarrow> i = 0 \<or> i = 1" for i :: nat by auto
    from c show ?thesis unfolding t m using j0 j1 b0 b1
      by (auto simp: failed_def u l)
  qed
qed

theorem transcribe_retry_policy_witness:
  "attempts (transcribe (always_throwing (api_error 503 ''Service unavailable'')) coin) = 3 \<and>
   g_code (the (reply (transcribe (always_throwing (api_error 503 ''Service unavailable'')) coin))) = Some SERVER_ERROR \<and>
   sleeps (transcribe (always_throwing (api_error 503 ''Service unavailable'')) coin) = [900, 1800] \<and>
   attempts (transcribe (always_throwing (api_error 401 ''Invalid API key'')) coin) = 1 \<and>
   g_code (the (reply (transcribe (always_throwing (api_error 401 ''Invalid API key'')) coin))) = Some GROQ_AUTH_ERROR"
proof -
  have s: "classifyError (api_error 503 ''Service unavailable'') = SERVER_ERROR"
    and a: "classifyError (api_error 401 ''Invalid API key'') = GROQ_AUTH_ERROR"
    by (simp_all add: classifyError_def api_error_def)
  have c: "0 \<le> coin k \<and> coin k < 1" for k by (simp add: coin_def)
  have u: "[0..<2::nat] = [0, 1]" by (simp add: upt_conv_Cons)
  have g: "getBackoffDelay 0 (1 / 2) (1 / 2) = 900" "getBackoffDelay (Suc 0) (1 / 2) (1 / 2) = 1800"
    by (simp_all add: getBackoffDelay_def retryConfig_def Let_def)
  from transcribe_retry_policy [where api = "always_throwing (api_error 503 ''Service unavailable'')"
      and err = "\<lambda>i. api_error 503 ''Service unavailable''" and rnd = coin, OF _ c]
  have 1: "attempts (transcribe (always_throwing (api_error 503 ''Service unavailable'')) coin) = 3 \<and>
   g_code (the (reply (transcribe (always_throwing (api_error 503 ''Service unavailable'')) coin))) = Some SERVER_ERROR \<and>
   sleeps (transcribe (always_throwing (api_error 503 ''Service unavailable'')) coin) = [900, 1800]"
    by (simp add: always_throwing_def s permanent_def u coin_def g)
  from transcribe_retry_policy [where api = "always_throwing (api_error 401 ''Invalid API key'')"
      and err = "\<lambda>i. api_error 401 ''Invalid API key''" and rnd = coin, OF _ c]
  have 2: "attempts (transcribe (always_throwing (api_error 401 ''Invalid API key'')) coin) = 1 \<and>
   g_code (the (reply (transcribe (always_throwing (api_error 401 ''Invalid API key'')) coin))) = Some GROQ_AUTH_ERROR"
    by (simp add: always_throwing_def a permanent_def)
  from 1 2 show ?thesis by simp
qed

end
